theory Spec2Isabelle
  imports Complex_Main
begin

section \<open>JavaScript values used by the FIRMS tools\<close>

text \<open>
  The two command-line tools of the repository are modelled: the prebake (fetch) tool, which
  queries the FIRMS area API month by month (the script after the static server in
  \<open>src/tools/serve-static.mjs\<close>), and the batch import tool, which reads local CSV/JSON
  files (\<open>src/unnamed/part_000\<close>). Both build GeoJSON point features and deduplicate them
  in a \<open>Map\<close>.

  A JavaScript number is an IEEE double. Its value is NaN, an infinity or a rational, and the
  comparisons and \<open>toFixed\<close> depend on that value only, so a number is modelled by its value
  (negative zero is identified with zero: both compare and print alike in this code).
\<close>

datatype jsnum = NaN | NegInf | Fin rat | PosInf

text \<open>\<open>a <= b\<close> on numbers: false as soon as one side is NaN.\<close>

fun js_le :: "jsnum \<Rightarrow> jsnum \<Rightarrow> bool" where
  "js_le NaN _ = False"
| "js_le _ NaN = False"
| "js_le NegInf _ = True"
| "js_le _ PosInf = True"
| "js_le (Fin a) (Fin b) = (a \<le> b)"
| "js_le (Fin a) NegInf = False"
| "js_le PosInf (Fin b) = False"
| "js_le PosInf NegInf = False"

text \<open>\<open>a >= b\<close> on numbers.\<close>

definition js_ge :: "jsnum \<Rightarrow> jsnum \<Rightarrow> bool" where
  "js_ge a b = js_le b a"

text \<open>\<open>Number.isFinite\<close>.\<close>

fun isFinite :: "jsnum \<Rightarrow> bool" where
  "isFinite (Fin _) = True"
| "isFinite _ = False"

text \<open>
  The primitive values a parsed CSV cell or a JSON scalar can be. A property that is absent
  reads as \<open>undefined\<close>.
\<close>

datatype jsval = JUndefined | JNull | JBool bool | JNum jsnum | JStr string

text \<open>
  Two built-ins of the language round to and from doubles and are therefore parameters of
  the model: the conversion of a string to a number (inside \<open>Number(s)\<close>) and the printing of
  a finite number (inside a template literal, and inside \<open>toFixed\<close> from \<open>1e21\<close> on).
\<close>

record builtins =
  StringToNumber :: "string \<Rightarrow> jsnum"
  NumberToString :: "rat \<Rightarrow> string"

text \<open>\<open>Number(v)\<close>.\<close>

fun Number :: "builtins \<Rightarrow> jsval \<Rightarrow> jsnum" where
  "Number B JUndefined = NaN"
| "Number B JNull = Fin 0"
| "Number B (JBool b) = Fin (if b then 1 else 0)"
| "Number B (JNum n) = n"
| "Number B (JStr s) = StringToNumber B s"

text \<open>The string a value contributes to a template literal.\<close>

fun ToString :: "builtins \<Rightarrow> jsval \<Rightarrow> string" where
  "ToString B JUndefined = ''undefined''"
| "ToString B JNull = ''null''"
| "ToString B (JBool b) = (if b then ''true'' else ''false'')"
| "ToString B (JNum NaN) = ''NaN''"
| "ToString B (JNum PosInf) = ''Infinity''"
| "ToString B (JNum NegInf) = ''-Infinity''"
| "ToString B (JNum (Fin r)) = NumberToString B r"
| "ToString B (JStr s) = s"

text \<open>Truthiness, \<open>a || b\<close> and \<open>a ?? b\<close>.\<close>

fun truthy :: "jsval \<Rightarrow> bool" where
  "truthy JUndefined = False"
| "truthy JNull = False"
| "truthy (JBool b) = b"
| "truthy (JNum NaN) = False"
| "truthy (JNum (Fin r)) = (r \<noteq> 0)"
| "truthy (JNum _) = True"
| "truthy (JStr s) = (s \<noteq> [])"

definition js_or :: "jsval \<Rightarrow> jsval \<Rightarrow> jsval" where
  "js_or a b = (if truthy a then a else b)"

fun js_nullish :: "jsval \<Rightarrow> jsval \<Rightarrow> jsval" where
  "js_nullish JUndefined b = b"
| "js_nullish JNull b = b"
| "js_nullish a b = a"

subsection \<open>Printing integers and fixed-point decimals\<close>

definition digit_char :: "nat \<Rightarrow> char" where
  "digit_char d =
     (if d = 0 then CHR ''0'' else if d = 1 then CHR ''1'' else if d = 2 then CHR ''2''
      else if d = 3 then CHR ''3'' else if d = 4 then CHR ''4'' else if d = 5 then CHR ''5''
      else if d = 6 then CHR ''6'' else if d = 7 then CHR ''7'' else if d = 8 then CHR ''8''
      else CHR ''9'')"

fun show_nat :: "nat \<Rightarrow> string" where
  "show_nat n = (if n < 10 then [digit_char n] else show_nat (n div 10) @ [digit_char (n mod 10)])"

declare show_nat.simps [simp del]

text \<open>\<open>String(i)\<close> for an integer-valued number.\<close>

definition show_int :: "int \<Rightarrow> string" where
  "show_int i = (if i < 0 then CHR ''-'' # show_nat (nat (- i)) else show_nat (nat i))"

text \<open>\<open>s.padStart(2, '0')\<close>.\<close>

definition padStart2 :: "string \<Rightarrow> string" where
  "padStart2 s = replicate (2 - length s) CHR ''0'' @ s"

text \<open>
  \<open>x.toFixed(4)\<close>, after ECMAScript: a non-finite number prints as itself; otherwise the sign
  is split off, and below \<open>1e21\<close> the integer \<open>n\<close> nearest to \<open>x * 10^4\<close> (the larger one on a
  tie) is printed with a point before its last four digits.
\<close>

definition fixed4_digits :: "rat \<Rightarrow> string" where
  "fixed4_digits a =
     (let n = nat \<lfloor>a * 10000 + 1 / 2\<rfloor>;
          m = show_nat n;
          m' = (if length m \<le> 4 then replicate (5 - length m) CHR ''0'' @ m else m);
          k = length m'
      in take (k - 4) m' @ ''.'' @ drop (k - 4) m')"

fun toFixed4 :: "builtins \<Rightarrow> jsnum \<Rightarrow> string" where
  "toFixed4 B NaN = ''NaN''"
| "toFixed4 B PosInf = ''Infinity''"
| "toFixed4 B NegInf = ''-Infinity''"
| "toFixed4 B (Fin r) =
     (let s = (if r < 0 then ''-'' else '''');
          a = (if r < 0 then - r else r)
      in if a \<ge> 10 ^ 21 then s @ NumberToString B a else s @ fixed4_digits a)"

section \<open>Features and the identity key\<close>

text \<open>
  A CSV row (or a JSON row object) is read by column name; a missing column is
  \<open>undefined\<close>.
\<close>

type_synonym row = "string \<Rightarrow> jsval"

record props =
  acq_date :: jsval
  acq_time :: jsval
  satellite :: jsval
  instrument :: jsval
  confidence :: jsval
  frp :: jsval
  daynight :: jsval
  version :: jsval
  src :: jsval

text \<open>
  A GeoJSON point feature: \<open>coordinates\<close> is \<open>[lon, lat]\<close>. A property deleted from, or never
  put into, the \<open>properties\<close> object is \<open>JUndefined\<close> here.
\<close>

record feature =
  coordinates :: "jsnum \<times> jsnum"
  properties :: props

text \<open>\<open>featureKey\<close>: the same text in both tools.\<close>

definition featureKey :: "builtins \<Rightarrow> feature \<Rightarrow> string" where
  "featureKey B f =
     (let p = properties f; lon = fst (coordinates f); lat = snd (coordinates f)
      in toFixed4 B lon @ '':'' @ toFixed4 B lat @ '':'' @ ToString B (acq_date p) @ '':''
         @ ToString B (acq_time p) @ '':'' @ ToString B (js_or (instrument p) (JStr ''''))
         @ '':'' @ ToString B (js_or (satellite p) (JStr '''')))"

subsection \<open>The geometry filter of the import tool\<close>

text \<open>
  \<open>[WEST,SOUTH,EAST,NORTH] = argv.bbox.split(',').map(Number)\<close>: four numbers; a part that
  is missing or does not parse compares like NaN.
\<close>

record box =
  WEST :: jsnum
  SOUTH :: jsnum
  EAST :: jsnum
  NORTH :: jsnum

definition isInBox :: "box \<Rightarrow> jsnum \<Rightarrow> jsnum \<Rightarrow> bool" where
  "isInBox bx lon lat =
     (js_ge lon (WEST bx) \<and> js_le lon (EAST bx) \<and> js_ge lat (SOUTH bx) \<and> js_le lat (NORTH bx))"

subsection \<open>The two normalizers\<close>

text \<open>\<open>rowToFeature\<close> of the import tool: returns \<open>null\<close> (here \<open>None\<close>) to reject.\<close>

definition rowToFeature_import :: "builtins \<Rightarrow> box \<Rightarrow> row \<Rightarrow> feature option" where
  "rowToFeature_import B bx row =
     (let lat = Number B (js_nullish (js_nullish (row ''latitude'') (row ''Latitude'')) (row ''lat''));
          lon = Number B (js_nullish (js_nullish (row ''longitude'') (row ''Longitude'')) (row ''lon''))
      in if \<not> isFinite lat \<or> \<not> isFinite lon then None
         else if \<not> isInBox bx lon lat then None
         else Some \<lparr> coordinates = (lon, lat),
                     properties = \<lparr>
                       acq_date = js_nullish (js_nullish (row ''acq_date'') (row ''ACQ_DATE'')) (row ''date''),
                       acq_time = js_nullish (js_nullish (row ''acq_time'') (row ''ACQ_TIME'')) (row ''time''),
                       satellite = js_nullish (row ''satellite'') (row ''SATELLITE''),
                       instrument = js_nullish (row ''instrument'') (row ''INSTRUMENT''),
                       confidence = js_nullish (row ''confidence'') (row ''CONFIDENCE''),
                       frp = js_nullish (row ''frp'') (row ''FRP''),
                       daynight = js_nullish (row ''daynight'') (row ''DAYNIGHT''),
                       version = js_nullish (row ''version'') (row ''VERSION''),
                       src = JUndefined \<rparr> \<rparr>)"

text \<open>
  \<open>rowToFeature\<close> of the prebake tool: no check at all, every row becomes a feature. The
  properties that are \<open>undefined\<close> are deleted, which leaves them \<open>JUndefined\<close>.
\<close>

definition rowToFeature :: "builtins \<Rightarrow> row \<Rightarrow> feature" where
  "rowToFeature B row =
     (let lat = Number B (row ''latitude''); lon = Number B (row ''longitude'')
      in \<lparr> coordinates = (lon, lat),
           properties = \<lparr>
             acq_date = row ''acq_date'', acq_time = row ''acq_time'',
             satellite = row ''satellite'', instrument = row ''instrument'',
             confidence = row ''confidence'',
             frp = (if truthy (row ''frp'') then JNum (Number B (row ''frp'')) else JUndefined),
             daynight = row ''daynight'', version = row ''version'',
             src = js_or (js_or (row ''src'') (row ''source'')) (JStr '''') \<rparr> \<rparr>)"

section \<open>The deduplicating map\<close>

text \<open>
  A JavaScript \<open>Map\<close> keeps its entries in insertion order, and \<open>set\<close> on a key that is
  present replaces the value where it stands: an association list with distinct keys.
\<close>

type_synonym ('k, 'v) jsmap = "('k \<times> 'v) list"

definition jm_has :: "('k, 'v) jsmap \<Rightarrow> 'k \<Rightarrow> bool" where
  "jm_has m k = (map_of m k \<noteq> None)"

definition jm_get :: "('k, 'v) jsmap \<Rightarrow> 'k \<Rightarrow> 'v option" where
  "jm_get m k = map_of m k"

fun jm_set :: "('k, 'v) jsmap \<Rightarrow> 'k \<Rightarrow> 'v \<Rightarrow> ('k, 'v) jsmap" where
  "jm_set [] k v = [(k, v)]"
| "jm_set ((k', v') # m) k v = (if k' = k then (k, v) # m else (k', v') # jm_set m k v)"

definition jm_keys :: "('k, 'v) jsmap \<Rightarrow> 'k list" where
  "jm_keys m = map fst m"

definition jm_values :: "('k, 'v) jsmap \<Rightarrow> 'v list" where
  "jm_values m = map snd m"

definition jm_size :: "('k, 'v) jsmap \<Rightarrow> nat" where
  "jm_size m = length m"

subsection \<open>The fold of the prebake tool\<close>

text \<open>\<open>const k = featureKey(f); if (!uniq.has(k)) uniq.set(k, f);\<close>\<close>

definition uniq_add :: "builtins \<Rightarrow> (string, feature) jsmap \<Rightarrow> feature \<Rightarrow> (string, feature) jsmap" where
  "uniq_add B uniq f = (let k = featureKey B f in if \<not> jm_has uniq k then jm_set uniq k f else uniq)"

text \<open>\<open>for (const f of feats) ...\<close>\<close>

definition uniq_fold :: "builtins \<Rightarrow> (string, feature) jsmap \<Rightarrow> feature list \<Rightarrow> (string, feature) jsmap" where
  "uniq_fold B uniq feats = foldl (uniq_add B) uniq feats"

subsection \<open>The fold of the import tool\<close>

text \<open>
  The errors thrown in the two tools. \<open>HttpError st\<close> is the error of \<open>fetchSlice\<close> with the
  message \<open>HTTP st (...)\<close>. A network failure and a failure of the CSV parser carry what the
  pattern \<open>/HTTP\s+(\d+)/\<close> of \<open>httpStatusFromError\<close> finds in their message: as a rule
  nothing. \<open>TypeError\<close> is a method call on a value that does not have the method.
\<close>

datatype error = HttpError nat | NetworkError "nat option" | ParseError "nat option" | TypeError

text \<open>\<open>toMonthKey = (iso) => iso.slice(0,7)\<close>: only a string has \<open>slice\<close>.\<close>

fun toMonthKey :: "jsval \<Rightarrow> error + string" where
  "toMonthKey (JStr isoDate) = Inr (take 7 isoDate)"
| "toMonthKey _ = Inl TypeError"

type_synonym buckets = "(string, (string, feature) jsmap) jsmap"

text \<open>
  The body of the loop over the features of one file in \<open>main\<close>: the month's map is created
  when missing, then \<open>set\<close> stores the feature under its key, present or not.
\<close>

definition buckets_add :: "builtins \<Rightarrow> buckets \<Rightarrow> feature \<Rightarrow> error + buckets" where
  "buckets_add B bs ft =
     (case toMonthKey (acq_date (properties ft)) of
        Inl e \<Rightarrow> Inl e
      | Inr mk \<Rightarrow>
          (let bs1 = (if \<not> jm_has bs mk then jm_set bs mk [] else bs);
               dedup = featureKey B ft
           in case jm_get bs1 mk of
                None \<Rightarrow> Inl TypeError
              | Some b \<Rightarrow> Inr (jm_set bs1 mk (jm_set b dedup ft))))"

fun buckets_fold :: "builtins \<Rightarrow> buckets \<Rightarrow> feature list \<Rightarrow> error + buckets" where
  "buckets_fold B bs [] = Inr bs"
| "buckets_fold B bs (ft # feats) =
     (case buckets_add B bs ft of Inl e \<Rightarrow> Inl e | Inr bs' \<Rightarrow> buckets_fold B bs' feats)"

text \<open>The features written for month \<open>mk\<close>: \<open>[...buckets.get(mk).values()]\<close>.\<close>

definition month_output :: "buckets \<Rightarrow> string \<Rightarrow> feature list" where
  "month_output bs mk = (case jm_get bs mk of None \<Rightarrow> [] | Some b \<Rightarrow> jm_values b)"

text \<open>The months of the buckets, each with the set of its identity keys.\<close>

definition key_sets :: "buckets \<Rightarrow> (string \<times> string set) set" where
  "key_sets bs = (\<lambda>(mk, b). (mk, set (jm_keys b))) ` set bs"

section \<open>The prebake tool: windows, requests, retries\<close>

subsection \<open>Calendar\<close>

definition leap_year :: "int \<Rightarrow> bool" where
  "leap_year y = (y mod 4 = 0 \<and> (y mod 100 \<noteq> 0 \<or> y mod 400 = 0))"

definition month_length :: "int \<Rightarrow> int \<Rightarrow> int" where
  "month_length y mo =
     (if mo = 2 then (if leap_year y then 29 else 28)
      else if mo = 4 \<or> mo = 6 \<or> mo = 9 \<or> mo = 11 then 30 else 31)"

text \<open>
  The day number of the first of January of year \<open>y\<close>, counted from the first of January
  1970 (\<open>DayFromYear\<close> of ECMAScript), and the days of year \<open>y\<close> that come before the month
  \<open>mo\<close> (from 1 to 12).
\<close>

definition DayFromYear :: "int \<Rightarrow> int" where
  "DayFromYear y = 365 * (y - 1970) + (y - 1969) div 4 - (y - 1901) div 100 + (y - 1601) div 400"

definition days_before_month :: "int \<Rightarrow> int \<Rightarrow> int" where
  "days_before_month y mo =
     (if mo = 1 then 0 else if mo = 2 then 31
      else (if leap_year y then 1 else 0) +
           (if mo = 3 then 59 else if mo = 4 then 90 else if mo = 5 then 120
            else if mo = 6 then 151 else if mo = 7 then 181 else if mo = 8 then 212
            else if mo = 9 then 243 else if mo = 10 then 273 else if mo = 11 then 304
            else 334))"

text \<open>
  \<open>new Date(Date.UTC(y, m1to12, 0)).getUTCDate()\<close>, for an integer year and month: day 0 of
  the month with index \<open>m1to12\<close> is the last day of the month before it, which is month
  \<open>m1to12\<close> counted from 1. \<open>Date.UTC\<close> reads a year from 0 to 99 as 1900 + y and carries a
  month index outside 0..11 into the year. A \<open>Date\<close> reaches 100,000,000 days to either side
  of the first of January 1970; beyond, the date is invalid and \<open>getUTCDate\<close> is NaN, which
  is \<open>None\<close> here.
\<close>

definition daysInMonth :: "int \<Rightarrow> int \<Rightarrow> int option" where
  "daysInMonth y m1to12 =
     (let yr = (if 0 \<le> y \<and> y \<le> 99 then 1900 + y else y);
          ym = yr + (m1to12 - 1) div 12;
          mn = (m1to12 - 1) mod 12 + 1;
          day = DayFromYear ym + days_before_month ym mn + month_length ym mn - 1
      in if - 100000000 \<le> day \<and> day \<le> 100000000 then Some (month_length ym mn) else None)"

text \<open>\<open>ymLt\<close>: \<open>a < b\<close> on strings compares code units from the left.\<close>

fun ymLt :: "string \<Rightarrow> string \<Rightarrow> bool" where
  "ymLt [] [] = False"
| "ymLt [] (y # ys) = True"
| "ymLt (x # xs) [] = False"
| "ymLt (x # xs) (y # ys) =
     (if (of_char x :: nat) < of_char y then True
      else if (of_char y :: nat) < of_char x then False
      else ymLt xs ys)"

subsection \<open>Window planner\<close>

definition DAY_MAX :: int where
  "DAY_MAX = 10"

record window =
  startDateISO :: string
  dayRange :: int

text \<open>\<open>`${y}-${String(m).padStart(2,'0')}-${String(d).padStart(2,'0')}`\<close>\<close>

definition dateISO :: "int \<Rightarrow> int \<Rightarrow> int \<Rightarrow> string" where
  "dateISO y m d = show_int y @ ''-'' @ padStart2 (show_int m) @ ''-'' @ padStart2 (show_int d)"

text \<open>
  The loop \<open>for (let d = 1; d <= dim; d += DAY_MAX)\<close> of \<open>prebakeMonth\<close>, from day \<open>d\<close> on (\<open>ndays\<close> is \<open>dim\<close>),
  with the ceiling as a parameter; \<open>ws\<close> is the array built so far. With a ceiling below 1
  the loop does not end, which is the value \<open>None\<close>.
\<close>

partial_function (option) windows_from ::
  "int \<Rightarrow> int \<Rightarrow> int \<Rightarrow> int \<Rightarrow> int \<Rightarrow> window list \<Rightarrow> window list option" where
  "windows_from dmax y m ndays d ws =
     (if d \<le> ndays then
        windows_from dmax y m ndays (d + dmax)
          (ws @ [\<lparr> startDateISO = dateISO y m d, dayRange = min dmax (ndays - d + 1) \<rparr>])
      else Some ws)"

declare windows_from.simps [code]

text \<open>
  \<open>const dim = daysInMonth(y, m)\<close> and the loop from day 1 with no window yet. When \<open>dim\<close> is
  NaN the test \<open>d <= dim\<close> fails at once and no window is planned.
\<close>

definition planWindows :: "int \<Rightarrow> int \<Rightarrow> int \<Rightarrow> window list option" where
  "planWindows dmax y m =
     (case daysInMonth y m of
        None \<Rightarrow> Some []
      | Some ndays \<Rightarrow> windows_from dmax y m ndays 1 [])"

subsection \<open>One request\<close>

text \<open>The arguments \<open>{ source, bbox: BBOX, ...w }\<close> of one request.\<close>

record request = window +
  source :: string
  bbox :: string

text \<open>
  What the upstream API answers: no answer at all (\<open>fetch\<close> rejects), or a status and a body.
  The body is seen through \<open>text.trim()\<close> and \<open>parseCSV\<close>: blank, rows, or a text the parser
  throws on. The two failures carry the status number that can be read in the message of
  their error, if any.
\<close>

datatype body = Blank | Csv "row list" | BadCsv "nat option"

datatype response = NoResponse "nat option" | Response nat body

text \<open>
  The upstream is an oracle: the answer to the \<open>n\<close>-th request of the run, given its
  arguments.
\<close>

type_synonym upstream = "nat \<Rightarrow> request \<Rightarrow> response"

text \<open>\<open>fetchSlice\<close>. \<open>res.ok\<close> holds for the statuses 200 to 299.\<close>

definition fetchSlice :: "builtins \<Rightarrow> response \<Rightarrow> error + feature list" where
  "fetchSlice B res =
     (case res of
        NoResponse c \<Rightarrow> Inl (NetworkError c)
      | Response st b \<Rightarrow>
          if \<not> (200 \<le> st \<and> st \<le> 299) then Inl (HttpError st)
          else (case b of
                  Blank \<Rightarrow> Inr []
                | BadCsv c \<Rightarrow> Inl (ParseError c)
                | Csv rows \<Rightarrow> Inr (map (rowToFeature B) rows)))"

text \<open>
  \<open>httpStatusFromError\<close>: the number after \<open>HTTP\<close> in the message, \<open>null\<close> when the message
  has none.
\<close>

fun httpStatusFromError :: "error \<Rightarrow> nat option" where
  "httpStatusFromError (HttpError st) = Some st"
| "httpStatusFromError (NetworkError c) = c"
| "httpStatusFromError (ParseError c) = c"
| "httpStatusFromError TypeError = None"

text \<open>The answers \<open>fetchSliceRetry\<close> takes for a rate limit: the statuses 403 and 429.\<close>

fun rate_limited :: "response \<Rightarrow> bool" where
  "rate_limited (Response st b) = (st = 403 \<or> st = 429)"
| "rate_limited (NoResponse c) = False"

subsection \<open>The run's configuration and the world it acts on\<close>

record config =
  SOURCES :: "string list"
  OUTDIR :: string
  BBOX :: string
  THROTTLE_MS :: int
  MAX_RETRIES :: int
  retryEmpty :: bool

text \<open>
  A stored file, as \<open>readExistingCount\<close> sees it: unreadable (the read or \<open>JSON.parse\<close>
  throws, or the document is \<open>null\<close>), or a document, with its \<open>features\<close> array if it has
  one.
\<close>

datatype blob = Unreadable | Json "feature list option"

record world =
  requests :: nat
  sleeps :: "int list"
  files :: "string \<Rightarrow> blob option"

subsection \<open>Retrying fetcher\<close>

text \<open>
  The loop of \<open>fetchSliceRetry\<close> from attempt \<open>attempt\<close> on. Every \<open>sleep\<close> is recorded, in
  order, in \<open>sleeps\<close>.
\<close>

function fetchSliceRetry_from ::
  "builtins \<Rightarrow> config \<Rightarrow> upstream \<Rightarrow> request \<Rightarrow> int \<Rightarrow> world \<Rightarrow> (error + feature list) \<times> world" where
  "fetchSliceRetry_from B cfg up args attempt w =
     (if attempt \<le> MAX_RETRIES cfg then
        (case fetchSlice B (up (requests w) args) of
           Inr out \<Rightarrow>
             (Inr out, w\<lparr> requests := requests w + 1, sleeps := sleeps w @ [THROTTLE_MS cfg] \<rparr>)
         | Inl err \<Rightarrow>
             (let code = httpStatusFromError err
              in if code = Some 403 \<or> code = Some 429 then
                   (let backoff = min 120000 (15000 * (attempt + 1))
                    in fetchSliceRetry_from B cfg up args (attempt + 1)
                         (w\<lparr> requests := requests w + 1, sleeps := sleeps w @ [backoff] \<rparr>))
                 else (Inl err, w\<lparr> requests := requests w + 1 \<rparr>)))
      else (Inr [], w))"
  by pat_completeness auto
termination
  by (relation "measure (\<lambda>(B, cfg, up, args, attempt, w). nat (MAX_RETRIES cfg + 1 - attempt))") auto

declare fetchSliceRetry_from.simps [simp del]

definition fetchSliceRetry ::
  "builtins \<Rightarrow> config \<Rightarrow> upstream \<Rightarrow> request \<Rightarrow> world \<Rightarrow> (error + feature list) \<times> world" where
  "fetchSliceRetry B cfg up args w = fetchSliceRetry_from B cfg up args 0 w"

subsection \<open>Month assembler\<close>

text \<open>
  \<open>SOURCE_START[source]\<close>. \<open>SOURCE_START\<close> is an object literal, so the lookup finds the
  seven dates of the table, and for the names that every object inherits from
  \<open>Object.prototype\<close> it finds a function or an object; any other name is \<open>undefined\<close>.
\<close>

definition Object_prototype_names :: "string list" where
  "Object_prototype_names =
     [''constructor'', ''__defineGetter__'', ''__defineSetter__'', ''hasOwnProperty'',
      ''__lookupGetter__'', ''__lookupSetter__'', ''isPrototypeOf'', ''propertyIsEnumerable'',
      ''toString'', ''valueOf'', ''__proto__'', ''toLocaleString'']"

datatype lookup = Own string | Inherited | Absent

definition SOURCE_START :: "string \<Rightarrow> lookup" where
  "SOURCE_START src_id =
     (case map_of
        [(''MODIS_SP'', ''2000-11-01''), (''MODIS_NRT'', ''2000-11-01''),
         (''VIIRS_SNPP_SP'', ''2012-01-20''), (''VIIRS_SNPP_NRT'', ''2012-01-20''),
         (''VIIRS_NOAA20_SP'', ''2020-01-01''), (''VIIRS_NOAA20_NRT'', ''2020-01-01''),
         (''VIIRS_NOAA21_NRT'', ''2024-01-17'')] src_id of
        Some d \<Rightarrow> Own d
      | None \<Rightarrow> if src_id \<in> set Object_prototype_names then Inherited else Absent)"

text \<open>\<open>readExistingCount\<close>: \<open>null\<close> is \<open>None\<close>.\<close>

fun readExistingCount :: "blob option \<Rightarrow> nat option" where
  "readExistingCount None = None"
| "readExistingCount (Some Unreadable) = None"
| "readExistingCount (Some (Json None)) = Some 0"
| "readExistingCount (Some (Json (Some fs))) = Some (length fs)"

text \<open>The month bucket, the \<open>sawLimit\<close> flag and the world, as the two loops thread them.\<close>

type_synonym assembly = "(string, feature) jsmap \<times> bool \<times> world"

text \<open>\<open>for (const w of windows) { try { ... } catch (err) { ... } }\<close>\<close>

fun window_loop ::
  "builtins \<Rightarrow> config \<Rightarrow> upstream \<Rightarrow> string \<Rightarrow> window list \<Rightarrow> assembly \<Rightarrow> assembly" where
  "window_loop B cfg up src_id [] st = st"
| "window_loop B cfg up src_id (wd # wds) (uniq, sawLimit, w) =
     (case fetchSliceRetry B cfg up
             \<lparr> startDateISO = startDateISO wd, dayRange = dayRange wd,
               source = src_id, bbox = BBOX cfg \<rparr> w of
        (Inr feats, w') \<Rightarrow> window_loop B cfg up src_id wds (uniq_fold B uniq feats, sawLimit, w')
      | (Inl err, w') \<Rightarrow>
          (let code = httpStatusFromError err
           in if code = Some 403 \<or> code = Some 429
              then window_loop B cfg up src_id wds (uniq, True, w')
              else window_loop B cfg up src_id wds (uniq, sawLimit, w')))"

text \<open>
  \<open>for (const source of SOURCES) { const start = SOURCE_START[source] || '1900-01-01';
  if (ymLt(monthKey, start.slice(0,7))) continue; ... }\<close>. An inherited property is truthy
  and has no \<open>slice\<close>: the call throws a TypeError, outside every \<open>try\<close>, and \<open>prebakeMonth\<close>
  ends with that error in the world reached so far.
\<close>

fun source_loop ::
  "builtins \<Rightarrow> config \<Rightarrow> upstream \<Rightarrow> string \<Rightarrow> window list \<Rightarrow> string list \<Rightarrow> assembly
     \<Rightarrow> (error \<times> world) + assembly" where
  "source_loop B cfg up monthKey windows [] st = Inr st"
| "source_loop B cfg up monthKey windows (src_id # rest) st =
     (case (case SOURCE_START src_id of
              Own d \<Rightarrow> Some d
            | Absent \<Rightarrow> Some ''1900-01-01''
            | Inherited \<Rightarrow> None) of
        None \<Rightarrow> Inl (TypeError, snd (snd st))
      | Some start \<Rightarrow>
          if ymLt monthKey (take 7 start)
          then source_loop B cfg up monthKey windows rest st
          else source_loop B cfg up monthKey windows rest (window_loop B cfg up src_id windows st))"

datatype decision = Skipped | Deferred | Written nat

definition monthKey_of :: "int \<Rightarrow> int \<Rightarrow> string" where
  "monthKey_of y m = show_int y @ ''-'' @ padStart2 (show_int m)"

text \<open>
  \<open>path.join(OUTDIR, `CA-${monthKey}.geojson`)\<close>, for a directory name that is normalized
  and has no final slash, such as \<open>data/firms\<close>: \<open>path.join\<close> then only puts the separator
  between the two parts.
\<close>

definition outfile_of :: "config \<Rightarrow> string \<Rightarrow> string" where
  "outfile_of cfg monthKey = OUTDIR cfg @ ''/'' @ ''CA-'' @ monthKey @ ''.geojson''"

text \<open>
  The part of \<open>prebakeMonth\<close> after the check of the existing file: plan the windows, fetch
  every source and window, then write or not. The result is the error thrown or the decision
  taken, with the world reached; \<open>None\<close>: the window loop does not end. The file system
  takes every write.
\<close>

definition rebuildMonth ::
  "builtins \<Rightarrow> config \<Rightarrow> upstream \<Rightarrow> int \<Rightarrow> int \<Rightarrow> world
     \<Rightarrow> ((error + decision) \<times> world) option" where
  "rebuildMonth B cfg up y m w =
     (let monthKey = monthKey_of y m;
          outfile = outfile_of cfg monthKey
      in case planWindows DAY_MAX y m of
           None \<Rightarrow> None
         | Some windows \<Rightarrow>
             (case source_loop B cfg up monthKey windows (SOURCES cfg) ([], False, w) of
                Inl (err, w') \<Rightarrow> Some (Inl err, w')
              | Inr (uniq, sawLimit, w') \<Rightarrow>
                  (let count = jm_size uniq
                   in if count = 0 \<and> sawLimit then Some (Inr Deferred, w')
                      else Some (Inr (Written count),
                                 w'\<lparr> files := (files w')(outfile := Some (Json (Some (jm_values uniq)))) \<rparr>))))"

text \<open>\<open>prebakeMonth\<close>.\<close>

definition prebakeMonth ::
  "builtins \<Rightarrow> config \<Rightarrow> upstream \<Rightarrow> int \<Rightarrow> int \<Rightarrow> world
     \<Rightarrow> ((error + decision) \<times> world) option" where
  "prebakeMonth B cfg up y m w =
     (let outfile = outfile_of cfg (monthKey_of y m)
      in if files w outfile \<noteq> None then
           (if \<not> retryEmpty cfg then Some (Inr Skipped, w)
            else (case readExistingCount (files w outfile) of
                    None \<Rightarrow> rebuildMonth B cfg up y m w
                  | Some n \<Rightarrow> if n > 0 then Some (Inr Skipped, w) else rebuildMonth B cfg up y m w))
         else rebuildMonth B cfg up y m w)"

section \<open>Example data\<close>

text \<open>
  The two built-ins on the strings that the examples below convert: each numeral is a
  double, so \<open>Number\<close> returns exactly its value, and \<open>Number('n/a')\<close> is NaN. No example
  prints a number through \<open>NumberToString\<close>.
\<close>

definition exampleBuiltins :: builtins where
  "exampleBuiltins =
     \<lparr> StringToNumber = (\<lambda>s. if s = ''34.5'' then Fin (69 / 2)
                               else if s = ''-120.25'' then Fin (- 481 / 4)
                               else if s = ''12.5'' then Fin (25 / 2)
                               else if s = ''7.5'' then Fin (15 / 2)
                               else if s = ''0'' then Fin 0
                               else NaN),
       NumberToString = (\<lambda>r. []) \<rparr>"

text \<open>The default box of the import tool, \<open>-125,32,-113.5,43\<close>.\<close>

definition exampleBox :: box where
  "exampleBox = \<lparr> WEST = Fin (- 125), SOUTH = Fin 32, EAST = Fin (- 227 / 2), NORTH = Fin 43 \<rparr>"

text \<open>Two detections of the same fire pixel that differ in fire radiative power only.\<close>

definition rowA :: row where
  "rowA = (\<lambda>_. JUndefined)
     (''latitude'' := JStr ''34.5'', ''longitude'' := JStr ''-120.25'',
      ''acq_date'' := JStr ''2020-01-15'', ''acq_time'' := JStr ''0130'',
      ''satellite'' := JStr ''Terra'', ''instrument'' := JStr ''MODIS'',
      ''frp'' := JStr ''12.5'')"

definition rowB :: row where
  "rowB = rowA (''frp'' := JStr ''7.5'')"

text \<open>A row on the equator, outside the box, and a row without a latitude.\<close>

definition rowOutside :: row where
  "rowOutside = rowA (''latitude'' := JStr ''0'', ''longitude'' := JStr ''0'')"

definition rowNoLat :: row where
  "rowNoLat = rowA (''latitude'' := JStr ''n/a'')"

definition featA :: feature where
  "featA = \<lparr> coordinates = (Fin (- 481 / 4), Fin (69 / 2)),
             properties = \<lparr> acq_date = JStr ''2020-01-15'', acq_time = JStr ''0130'',
                            satellite = JStr ''Terra'', instrument = JStr ''MODIS'',
                            confidence = JUndefined, frp = JStr ''12.5'',
                            daynight = JUndefined, version = JUndefined, src = JUndefined \<rparr> \<rparr>"

definition featB :: feature where
  "featB = featA \<lparr> properties := (properties featA) \<lparr> frp := JStr ''7.5'' \<rparr> \<rparr>"


definition featD :: feature where
  "featD = \<lparr> coordinates = (Fin (- 12012341 / 100000), Fin (3449999 / 100000)),
             properties = \<lparr> acq_date = JStr ''2020-01-15'', acq_time = JStr ''0130'',
                            satellite = JStr [], instrument = JUndefined,
                            confidence = JUndefined, frp = JStr ''7.5'',
                            daynight = JUndefined, version = JUndefined, src = JUndefined \<rparr> \<rparr>"

definition exampleConfig :: config where
  "exampleConfig =
     \<lparr> SOURCES = [''MODIS_SP''], OUTDIR = ''data/firms'', BBOX = ''-125,32,-113.5,43'',
       THROTTLE_MS = 800, MAX_RETRIES = 4, retryEmpty = True \<rparr>"

definition emptyWorld :: world where
  "emptyWorld = \<lparr> requests = 0, sleeps = [], files = (\<lambda>_. None) \<rparr>"

definition exampleRequest :: request where
  "exampleRequest = \<lparr> startDateISO = ''2020-01-01'', dayRange = 10,
                       source = ''MODIS_SP'', bbox = ''-125,32,-113.5,43'' \<rparr>"

text \<open>An upstream that is rate limited all the time.\<close>

definition alwaysLimited :: upstream where
  "alwaysLimited = (\<lambda>n req. Response 429 Blank)"

text \<open>An upstream that is rate limited four times and then answers with one row.\<close>

definition limitedFourTimes :: upstream where
  "limitedFourTimes = (\<lambda>n req. if n < 4 then Response 429 Blank else Response 200 (Csv [rowA]))"

text \<open>
  Two sources that each return one of the two detections for the first window of January
  2020, and nothing for the other windows.
\<close>

definition twoSourcesConfig :: config where
  "twoSourcesConfig = exampleConfig \<lparr> SOURCES := [''MODIS_SP'', ''VIIRS_SNPP_SP''] \<rparr>"

definition twoSources :: upstream where
  "twoSources = (\<lambda>n req.
     if startDateISO req = ''2020-01-01''
     then (if source req = ''MODIS_SP'' then Response 200 (Csv [rowA]) else Response 200 (Csv [rowB]))
     else Response 200 Blank)"






section \<open>Helper facts\<close>

lemma floor_numeral_div: "\<lfloor>(numeral a / numeral b :: rat)\<rfloor> = numeral a div numeral b"
  using floor_divide_of_int_eq [of "numeral a" "numeral b", where ?'a = rat] by simp

lemma replicate_numeral_unfold: "replicate (numeral k) x = x # replicate (pred_numeral k) x"
  by (simp add: numeral_eq_Suc)

lemma show_nat_digit: "n < 10 \<Longrightarrow> show_nat n = [digit_char n]"
  by (simp add: show_nat.simps)

lemma show_nat_more: "\<not> n < 10 \<Longrightarrow> show_nat n = show_nat (n div 10) @ [digit_char (n mod 10)]"
  by (simp add: show_nat.simps)

lemmas print_number =
  fixed4_digits_def floor_numeral_div show_nat_digit show_nat_more digit_char_def Let_def
  replicate_numeral_unfold show_int_def padStart2_def

lemma featureKey_featA:
  "featureKey exampleBuiltins featA = ''-120.2500:34.5000:2020-01-15:0130:MODIS:Terra''"
  by (simp add: featureKey_def featA_def js_or_def print_number)

lemma featureKey_featB:
  "featureKey exampleBuiltins featB = ''-120.2500:34.5000:2020-01-15:0130:MODIS:Terra''"
  by (simp add: featureKey_def featA_def featB_def js_or_def print_number)


lemma featureKey_featD:
  "featureKey exampleBuiltins featD = ''-120.1234:34.5000:2020-01-15:0130::''"
  by (simp add: featureKey_def featD_def js_or_def print_number)

subsection \<open>The map\<close>

lemma jm_has_keys: "jm_has m k \<longleftrightarrow> k \<in> set (jm_keys m)"
  by (induction m) (auto simp: jm_has_def jm_keys_def)

lemma jm_keys_set: "set (jm_keys (jm_set m k v)) = insert k (set (jm_keys m))"
  unfolding jm_keys_def
proof (induction m)
  case Nil
  show ?case by simp
next
  case (Cons p m)
  then show ?case by (cases p) (simp add: insert_commute)
qed

lemma jm_get_set_same: "jm_get (jm_set m k v) k = Some v"
proof (induction m)
  case Nil
  show ?case by (simp add: jm_get_def)
next
  case (Cons p m)
  then show ?case by (cases p) (simp add: jm_get_def)
qed

lemma jm_has_set_same: "jm_has (jm_set m k v) k"
  using jm_get_set_same [of m k v] by (simp add: jm_has_def jm_get_def)

lemma jm_set_present_size: "jm_has m k \<Longrightarrow> jm_size (jm_set m k v) = jm_size m"
proof (induction m)
  case Nil
  then show ?case by (simp add: jm_has_def)
next
  case (Cons p m)
  then show ?case by (cases p) (auto simp: jm_has_def jm_size_def)
qed

lemma uniq_add_keys:
  "set (jm_keys (uniq_add B uniq f)) = insert (featureKey B f) (set (jm_keys uniq))"
  by (auto simp: uniq_add_def Let_def jm_keys_set jm_has_keys)

lemma uniq_fold_keys:
  "set (jm_keys (uniq_fold B uniq feats)) = set (jm_keys uniq) \<union> featureKey B ` set feats"
  unfolding uniq_fold_def
  by (induction feats arbitrary: uniq) (auto simp: uniq_add_keys)

lemma uniq_add_present: "jm_has uniq (featureKey B f) \<Longrightarrow> uniq_add B uniq f = uniq"
  by (simp add: uniq_add_def)

lemma uniq_fold_pair_same:
  "featureKey B a = featureKey B b \<Longrightarrow> uniq_fold B [] [a, b] = [(featureKey B a, a)]"
  by (simp add: uniq_fold_def uniq_add_def jm_has_def)

lemma toMonthKey_error: "toMonthKey v = Inl e \<Longrightarrow> e = TypeError"
  by (cases v) auto

lemma buckets_fold_pair_same:
  assumes "featureKey B a = featureKey B b"
    and "toMonthKey (acq_date (properties a)) = Inr mk"
    and "toMonthKey (acq_date (properties b)) = Inr mk"
  shows "buckets_fold B [] [a, b] = Inr [(mk, [(featureKey B a, b)])]"
  using assms by (simp add: buckets_add_def jm_has_def jm_get_def)

lemma buckets_add_stores:
  assumes "toMonthKey (acq_date (properties ft)) = Inr mk"
  shows "\<exists>bs' bkt. buckets_add B bs ft = Inr bs' \<and> jm_get bs' mk = Some bkt
            \<and> jm_get bkt (featureKey B ft) = Some ft"
proof (cases "jm_get (if \<not> jm_has bs mk then jm_set bs mk [] else bs) mk")
  case None
  then have False
    using jm_has_set_same [of bs mk "[]"] by (auto simp: jm_has_def jm_get_def split: if_splits)
  then show ?thesis ..
next
  case (Some bkt)
  then show ?thesis
    using assms by (simp add: buckets_add_def Let_def jm_get_set_same)
qed

lemma buckets_pair_comm:
  "map_sum id key_sets (buckets_fold B [] [a, b]) = map_sum id key_sets (buckets_fold B [] [b, a])"
  by (cases "toMonthKey (acq_date (properties a))"; cases "toMonthKey (acq_date (properties b))")
     (auto simp: buckets_add_def jm_has_def jm_get_def key_sets_def jm_keys_def Let_def
           dest: toMonthKey_error)

section \<open>Geometry filter and normalizers\<close>

lemma js_le_Fin_left: "js_le (Fin a) z \<longleftrightarrow> (case z of Fin b \<Rightarrow> a \<le> b | PosInf \<Rightarrow> True | _ \<Rightarrow> False)"
  by (cases z) simp_all

lemma js_le_Fin_right: "js_le z (Fin b) \<longleftrightarrow> (case z of Fin a \<Rightarrow> a \<le> b | NegInf \<Rightarrow> True | _ \<Rightarrow> False)"
  by (cases z) simp_all

lemma isInBox_finite_box_rejects_nonfinite:
  "\<not> isFinite lon \<or> \<not> isFinite lat \<Longrightarrow>
   \<not> isInBox \<lparr> WEST = Fin w, SOUTH = Fin s, EAST = Fin e, NORTH = Fin n \<rparr> lon lat"
  by (cases lon; cases lat) (simp_all add: isInBox_def js_ge_def)

text \<open>
  Claim C9. Under a bounding box of four finite bounds, the geometry filter of the import
  tool is true exactly for the finite coordinates with \<open>west \<le> lon \<le> east\<close> and
  \<open>south \<le> lat \<le> north\<close>: the corner \<open>(west, north)\<close> of an ordered box is inside, and a NaN
  or infinite longitude or latitude is not.
\<close>

theorem isInBox_closed_rectangle:
  "(isInBox \<lparr> WEST = Fin w, SOUTH = Fin s, EAST = Fin e, NORTH = Fin n \<rparr> (Fin x) (Fin y)
      \<longleftrightarrow> w \<le> x \<and> x \<le> e \<and> s \<le> y \<and> y \<le> n)
   \<and> (w \<le> e \<and> s \<le> n \<longrightarrow>
        isInBox \<lparr> WEST = Fin w, SOUTH = Fin s, EAST = Fin e, NORTH = Fin n \<rparr> (Fin w) (Fin n))
   \<and> (\<not> isFinite lon \<or> \<not> isFinite lat \<longrightarrow>
        \<not> isInBox \<lparr> WEST = Fin w, SOUTH = Fin s, EAST = Fin e, NORTH = Fin n \<rparr> lon lat)"
  using isInBox_finite_box_rejects_nonfinite [of lon lat w s e n]
  by (auto simp: isInBox_def js_ge_def)

theorem isInBox_closed_rectangle_witness:
  "(- 125 :: rat) \<le> - 120 \<and> (- 120 :: rat) \<le> - 227 / 2 \<and> (32 :: rat) \<le> 38 \<and> (38 :: rat) \<le> 43
   \<and> isInBox exampleBox (Fin (- 120)) (Fin 38)
   \<and> \<not> isInBox exampleBox (Fin (- 113)) (Fin 38)
   \<and> (- 125 :: rat) \<le> - 227 / 2 \<and> (32 :: rat) \<le> 43
   \<and> isInBox exampleBox (Fin (- 125)) (Fin 43)
   \<and> \<not> isFinite NaN \<and> \<not> isInBox exampleBox NaN (Fin 38)
   \<and> \<not> isFinite PosInf \<and> \<not> isInBox exampleBox (Fin (- 120)) PosInf"
  using isInBox_closed_rectangle [of "- 125" 32 "- 227 / 2" 43 "- 120" 38 NaN "Fin 38"]
        isInBox_closed_rectangle [of "- 125" 32 "- 227 / 2" 43 "- 113" 38 "Fin (- 120)" PosInf]
  by (simp add: exampleBox_def)

text \<open>
  Claim C3, as the code has it. The normalizer of the import tool rejects a row exactly when
  its latitude or longitude does not convert to a finite number or the geometry filter
  rejects the coordinate. The normalizer of the prebake tool has no geometry filter (the
  bounding box goes to the upstream API in the URL): a row with a finite latitude and
  longitude becomes a feature at that coordinate, inside the box or not.
\<close>

theorem import_normalizer_rejects_prebake_has_no_filter:
  "(let lat = Number B (js_nullish (js_nullish (row ''latitude'') (row ''Latitude'')) (row ''lat''));
        lon = Number B (js_nullish (js_nullish (row ''longitude'') (row ''Longitude'')) (row ''lon''))
    in rowToFeature_import B bx row = None
         \<longleftrightarrow> \<not> isFinite lat \<or> \<not> isFinite lon \<or> \<not> isInBox bx lon lat)
   \<and> (isFinite (Number B (row ''latitude'')) \<and> isFinite (Number B (row ''longitude'')) \<longrightarrow>
        coordinates (rowToFeature B row) = (Number B (row ''longitude''), Number B (row ''latitude''))
        \<and> fetchSlice B (Response 200 (Csv [row])) = Inr [rowToFeature B row])"
  by (auto simp: rowToFeature_import_def rowToFeature_def fetchSlice_def Let_def)

lemma Number_rowNoLat:
  "Number exampleBuiltins (js_nullish (js_nullish (rowNoLat ''latitude'') (rowNoLat ''Latitude''))
      (rowNoLat ''lat'')) = NaN"
  by (simp add: rowNoLat_def rowA_def exampleBuiltins_def)

lemma Number_rowOutside:
  "Number exampleBuiltins (rowOutside ''latitude'') = Fin 0"
  "Number exampleBuiltins (rowOutside ''longitude'') = Fin 0"
  by (simp_all add: rowOutside_def rowA_def exampleBuiltins_def)

theorem import_normalizer_rejects_prebake_has_no_filter_witness:
  "\<not> isFinite (Number exampleBuiltins
        (js_nullish (js_nullish (rowNoLat ''latitude'') (rowNoLat ''Latitude'')) (rowNoLat ''lat'')))
   \<and> rowToFeature_import exampleBuiltins exampleBox rowNoLat = None
   \<and> isFinite (Number exampleBuiltins (rowOutside ''latitude''))
   \<and> isFinite (Number exampleBuiltins (rowOutside ''longitude''))
   \<and> coordinates (rowToFeature exampleBuiltins rowOutside) = (Fin 0, Fin 0)
   \<and> fetchSlice exampleBuiltins (Response 200 (Csv [rowOutside]))
       = Inr [rowToFeature exampleBuiltins rowOutside]"
  using import_normalizer_rejects_prebake_has_no_filter [of exampleBuiltins rowNoLat exampleBox]
        import_normalizer_rejects_prebake_has_no_filter [of exampleBuiltins rowOutside exampleBox]
  by (simp add: Number_rowNoLat Number_rowOutside Let_def)

text \<open>
  Claim C3 fails in the prebake tool: a row on the equator, which the geometry filter of the
  default box rejects and the import tool drops, becomes a feature there.
\<close>

theorem prebake_keeps_row_outside_box:
  "Number exampleBuiltins (rowOutside ''longitude'') = Fin 0
   \<and> Number exampleBuiltins (rowOutside ''latitude'') = Fin 0
   \<and> \<not> isInBox exampleBox (Fin 0) (Fin 0)
   \<and> rowToFeature_import exampleBuiltins exampleBox rowOutside = None
   \<and> coordinates (rowToFeature exampleBuiltins rowOutside) = (Fin 0, Fin 0)
   \<and> fetchSlice exampleBuiltins (Response 200 (Csv [rowOutside]))
       = Inr [rowToFeature exampleBuiltins rowOutside]"
proof -
  have out: "\<not> isInBox exampleBox (Fin 0) (Fin 0)"
    by (simp add: isInBox_def exampleBox_def js_ge_def)
  have r: "rowOutside ''Latitude'' = JUndefined" "rowOutside ''lat'' = JUndefined"
    "rowOutside ''Longitude'' = JUndefined" "rowOutside ''lon'' = JUndefined"
    "rowOutside ''latitude'' = JStr ''0''" "rowOutside ''longitude'' = JStr ''0''"
    by (simp_all add: rowOutside_def rowA_def)
  have "rowToFeature_import exampleBuiltins exampleBox rowOutside = None"
    using out by (simp add: rowToFeature_import_def r exampleBuiltins_def Let_def)
  moreover have "coordinates (rowToFeature exampleBuiltins rowOutside) = (Fin 0, Fin 0)"
    by (simp add: rowToFeature_def Number_rowOutside Let_def)
  moreover have "fetchSlice exampleBuiltins (Response 200 (Csv [rowOutside]))
       = Inr [rowToFeature exampleBuiltins rowOutside]"
    by (simp add: fetchSlice_def)
  ultimately show ?thesis
    using out by (simp add: Number_rowOutside)
qed

section \<open>Retrying fetcher\<close>

lemma fetchSlice_rate_limited:
  "rate_limited res \<Longrightarrow> \<exists>st. fetchSlice B res = Inl (HttpError st) \<and> (st = 403 \<or> st = 429)"
  by (cases res) (auto simp: fetchSlice_def)

lemma retry_exhausted:
  "\<not> attempt \<le> MAX_RETRIES cfg \<Longrightarrow> fetchSliceRetry_from B cfg up args attempt w = (Inr [], w)"
  by (simp add: fetchSliceRetry_from.simps)

lemma retry_limited:
  assumes "attempt \<le> MAX_RETRIES cfg" and "rate_limited (up (requests w) args)"
  shows "fetchSliceRetry_from B cfg up args attempt w =
         fetchSliceRetry_from B cfg up args (attempt + 1)
           (w\<lparr> requests := requests w + 1,
               sleeps := sleeps w @ [min 120000 (15000 * (attempt + 1))] \<rparr>)"
proof -
  obtain st where "fetchSlice B (up (requests w) args) = Inl (HttpError st)" "st = 403 \<or> st = 429"
    using fetchSlice_rate_limited [OF assms(2)] by blast
  then show ?thesis
    using assms(1) by (subst fetchSliceRetry_from.simps) (auto simp: Let_def)
qed

lemma retry_success:
  assumes "attempt \<le> MAX_RETRIES cfg" and "fetchSlice B (up (requests w) args) = Inr out"
  shows "fetchSliceRetry_from B cfg up args attempt w =
         (Inr out, w\<lparr> requests := requests w + 1, sleeps := sleeps w @ [THROTTLE_MS cfg] \<rparr>)"
  using assms by (subst fetchSliceRetry_from.simps) simp

lemma retry_requests_grow:
  "requests w + (if attempt \<le> MAX_RETRIES cfg then 1 else 0)
     \<le> requests (snd (fetchSliceRetry_from B cfg up args attempt w))"
proof (induction B cfg up args attempt w rule: fetchSliceRetry_from.induct)
  case (1 B cfg up args attempt w)
  show ?case
  proof (cases "attempt \<le> MAX_RETRIES cfg")
    case False
    then show ?thesis by (simp add: retry_exhausted)
  next
    case True
    show ?thesis
    proof (cases "fetchSlice B (up (requests w) args)")
      case (Inr out)
      then show ?thesis using True by (simp add: retry_success)
    next
      case (Inl err)
      show ?thesis
      proof (cases "httpStatusFromError err = Some 403 \<or> httpStatusFromError err = Some 429")
        case False
        then show ?thesis
          using True Inl by (subst fetchSliceRetry_from.simps) (simp add: Let_def)
      next
        case lim: True
        have "requests (w\<lparr> requests := requests w + 1,
                  sleeps := sleeps w @ [min 120000 (15000 * (attempt + 1))] \<rparr>)
              \<le> requests (snd (fetchSliceRetry_from B cfg up args (attempt + 1)
                    (w\<lparr> requests := requests w + 1,
                        sleeps := sleeps w @ [min 120000 (15000 * (attempt + 1))] \<rparr>)))"
          using "1.IH" [OF True Inl refl lim refl] by (simp split: if_splits)
        then show ?thesis
          using True Inl lim by (subst fetchSliceRetry_from.simps) (simp add: Let_def)
      qed
    qed
  qed
qed

lemma retry_all_limited:
  assumes "\<forall>i < k. rate_limited (up (requests w + i) args)"
    and "k = nat (MAX_RETRIES cfg + 1 - attempt)"
  shows "fetchSliceRetry_from B cfg up args attempt w =
         (Inr [], w\<lparr> requests := requests w + k,
                     sleeps := sleeps w @ map (\<lambda>n. min 120000 (15000 * (n + 1)))
                                            [attempt..MAX_RETRIES cfg] \<rparr>)"
  using assms
proof (induction k arbitrary: attempt w)
  case 0
  then have "\<not> attempt \<le> MAX_RETRIES cfg" by simp
  then show ?case by (simp add: retry_exhausted)
next
  case (Suc k)
  then have le: "attempt \<le> MAX_RETRIES cfg" by simp
  have now: "rate_limited (up (requests w) args)"
    using Suc.prems(1) by (metis add.right_neutral zero_less_Suc)
  let ?w = "w\<lparr> requests := requests w + 1,
               sleeps := sleeps w @ [min 120000 (15000 * (attempt + 1))] \<rparr>"
  have later: "\<forall>i < k. rate_limited (up (requests ?w + i) args)"
  proof (intro allI impI)
    fix i assume "i < k"
    then have "Suc i < Suc k" by simp
    with Suc.prems(1) have "rate_limited (up (requests w + Suc i) args)" by blast
    then show "rate_limited (up (requests ?w + i) args)" by simp
  qed
  have k: "k = nat (MAX_RETRIES cfg + 1 - (attempt + 1))" using Suc.prems(2) by simp
  have "fetchSliceRetry_from B cfg up args attempt w =
        fetchSliceRetry_from B cfg up args (attempt + 1) ?w"
    using le now by (rule retry_limited)
  also have "\<dots> = (Inr [], ?w\<lparr> requests := requests ?w + k,
                     sleeps := sleeps ?w @ map (\<lambda>n. min 120000 (15000 * (n + 1)))
                                            [attempt + 1..MAX_RETRIES cfg] \<rparr>)"
    using Suc.IH [OF later k] .
  finally show ?case
    using le by (simp add: upto_rec1 [of attempt])
qed

text \<open>
  Claim C7. When attempt \<open>n\<close> meets a rate limit, the fetcher sleeps
  \<open>min(120000, 15000 * (n + 1))\<close> milliseconds, which is \<open>15000 * (n + 1)\<close> up to
  the eighth attempt and 120000 from then on, and goes on with attempt \<open>n + 1\<close>: if
  \<open>n + 1 \<le> MAX_RETRIES\<close> that attempt issues a further request, otherwise the fetcher is
  exhausted and returns no feature.
\<close>

theorem backoff_linear_capped_then_next_attempt:
  assumes "n \<le> MAX_RETRIES cfg" and "rate_limited (up (requests w) args)"
  shows "(let w' = w\<lparr> requests := requests w + 1,
                     sleeps := sleeps w @ [min 120000 (15000 * (n + 1))] \<rparr>
          in fetchSliceRetry_from B cfg up args n w = fetchSliceRetry_from B cfg up args (n + 1) w'
             \<and> (n + 1 \<le> MAX_RETRIES cfg \<longrightarrow>
                  requests w' + 1 \<le> requests (snd (fetchSliceRetry_from B cfg up args (n + 1) w')))
             \<and> (\<not> n + 1 \<le> MAX_RETRIES cfg \<longrightarrow>
                  fetchSliceRetry_from B cfg up args (n + 1) w' = (Inr [], w')))
         \<and> min 120000 (15000 * (n + 1)) = (if n + 1 \<le> 8 then 15000 * (n + 1) else 120000)"
proof -
  let ?w = "w\<lparr> requests := requests w + 1,
               sleeps := sleeps w @ [min 120000 (15000 * (n + 1))] \<rparr>"
  have "fetchSliceRetry_from B cfg up args n w = fetchSliceRetry_from B cfg up args (n + 1) ?w"
    using assms by (rule retry_limited)
  moreover have "n + 1 \<le> MAX_RETRIES cfg \<longrightarrow>
      requests ?w + 1 \<le> requests (snd (fetchSliceRetry_from B cfg up args (n + 1) ?w))"
    using retry_requests_grow [of ?w "n + 1" cfg B up args] by (simp split: if_splits)
  moreover have "\<not> n + 1 \<le> MAX_RETRIES cfg \<longrightarrow>
      fetchSliceRetry_from B cfg up args (n + 1) ?w = (Inr [], ?w)"
    by (simp add: retry_exhausted)
  moreover have "min 120000 (15000 * (n + 1)) = (if n + 1 \<le> 8 then 15000 * (n + 1) else 120000)"
    by simp
  ultimately show ?thesis by (simp add: Let_def)
qed

theorem backoff_linear_capped_then_next_attempt_witness:
  "(3 :: int) \<le> MAX_RETRIES exampleConfig
   \<and> rate_limited (alwaysLimited (requests emptyWorld) exampleRequest)
   \<and> fetchSliceRetry_from exampleBuiltins exampleConfig alwaysLimited exampleRequest 3 emptyWorld
       = fetchSliceRetry_from exampleBuiltins exampleConfig alwaysLimited exampleRequest 4
           (emptyWorld\<lparr> requests := 1, sleeps := [60000] \<rparr>)
   \<and> 2 \<le> requests (snd (fetchSliceRetry_from exampleBuiltins exampleConfig alwaysLimited
                           exampleRequest 4 (emptyWorld\<lparr> requests := 1, sleeps := [60000] \<rparr>)))
   \<and> (4 :: int) \<le> MAX_RETRIES exampleConfig
   \<and> \<not> (5 :: int) \<le> MAX_RETRIES exampleConfig
   \<and> fetchSliceRetry_from exampleBuiltins exampleConfig alwaysLimited exampleRequest 4 emptyWorld
       = fetchSliceRetry_from exampleBuiltins exampleConfig alwaysLimited exampleRequest 5
           (emptyWorld\<lparr> requests := 1, sleeps := [75000] \<rparr>)
   \<and> fetchSliceRetry_from exampleBuiltins exampleConfig alwaysLimited exampleRequest 5
           (emptyWorld\<lparr> requests := 1, sleeps := [75000] \<rparr>)
       = (Inr [], emptyWorld\<lparr> requests := 1, sleeps := [75000] \<rparr>)"
proof -
  have m: "MAX_RETRIES exampleConfig = 4" by (simp add: exampleConfig_def)
  have r: "rate_limited (alwaysLimited (requests emptyWorld) exampleRequest)"
    by (simp add: alwaysLimited_def)
  have e: "requests emptyWorld = 0" "sleeps emptyWorld = []" by (simp_all add: emptyWorld_def)
  show ?thesis
    using backoff_linear_capped_then_next_attempt
            [of 3 exampleConfig alwaysLimited emptyWorld exampleRequest exampleBuiltins]
          backoff_linear_capped_then_next_attempt
            [of 4 exampleConfig alwaysLimited emptyWorld exampleRequest exampleBuiltins]
          r
    by (simp add: m e Let_def)
qed

text \<open>
  Claim C4, as the code has it. With \<open>MAX_RETRIES = 4\<close> the loop runs the attempts 0 to 4:
  it takes five rate-limit answers in a row to exhaust the fetcher, which then returns zero
  features and no error, after sleeping 15, 30, 45, 60 and 75 seconds.
\<close>

theorem five_rate_limits_exhaust_four_retries:
  assumes "MAX_RETRIES cfg = 4" and "\<forall>i < 5. rate_limited (up (requests w + i) args)"
  shows "fetchSliceRetry B cfg up args w =
         (Inr [], w\<lparr> requests := requests w + 5,
                     sleeps := sleeps w @ [15000, 30000, 45000, 60000, 75000] \<rparr>)"
proof -
  have k: "(5 :: nat) = nat (MAX_RETRIES cfg + 1 - 0)"
    using assms(1) by simp
  have "fetchSliceRetry_from B cfg up args 0 w =
         (Inr [], w\<lparr> requests := requests w + 5,
                     sleeps := sleeps w @ map (\<lambda>n. min 120000 (15000 * (n + 1)))
                                            [0..MAX_RETRIES cfg] \<rparr>)"
    using assms(2) k by (rule retry_all_limited)
  moreover have "map (\<lambda>n. min 120000 (15000 * (n + 1))) [0..MAX_RETRIES cfg]
                 = [15000, 30000, 45000, 60000, 75000 :: int]"
    unfolding assms(1) by (simp add: upto.simps)
  ultimately show ?thesis
    by (simp only: fetchSliceRetry_def)
qed

theorem five_rate_limits_exhaust_four_retries_witness:
  "MAX_RETRIES exampleConfig = 4
   \<and> rate_limited (alwaysLimited (requests emptyWorld + 0) exampleRequest)
   \<and> rate_limited (alwaysLimited (requests emptyWorld + 1) exampleRequest)
   \<and> rate_limited (alwaysLimited (requests emptyWorld + 2) exampleRequest)
   \<and> rate_limited (alwaysLimited (requests emptyWorld + 3) exampleRequest)
   \<and> rate_limited (alwaysLimited (requests emptyWorld + 4) exampleRequest)
   \<and> fetchSliceRetry exampleBuiltins exampleConfig alwaysLimited exampleRequest emptyWorld
       = (Inr [], emptyWorld\<lparr> requests := 5, sleeps := [15000, 30000, 45000, 60000, 75000] \<rparr>)"
proof -
  have m: "MAX_RETRIES exampleConfig = 4" by (simp add: exampleConfig_def)
  have r: "\<forall>i < 5. rate_limited (alwaysLimited (requests emptyWorld + i) exampleRequest)"
    by (simp add: alwaysLimited_def)
  show ?thesis
    using five_rate_limits_exhaust_four_retries
            [of exampleConfig alwaysLimited emptyWorld exampleRequest exampleBuiltins] m r
    by (simp add: emptyWorld_def)
qed

text \<open>
  Claim C4 fails with four rate limits: the fetcher makes a fifth request, and returns the
  feature that this request brings.
\<close>

theorem four_rate_limits_are_followed_by_a_fifth_attempt:
  "MAX_RETRIES exampleConfig = 4
   \<and> rate_limited (limitedFourTimes 0 exampleRequest)
   \<and> rate_limited (limitedFourTimes 1 exampleRequest)
   \<and> rate_limited (limitedFourTimes 2 exampleRequest)
   \<and> rate_limited (limitedFourTimes 3 exampleRequest)
   \<and> fetchSliceRetry exampleBuiltins exampleConfig limitedFourTimes exampleRequest emptyWorld
       = (Inr [rowToFeature exampleBuiltins rowA],
          emptyWorld\<lparr> requests := 5, sleeps := [15000, 30000, 45000, 60000, 800] \<rparr>)"
proof -
  have m: "MAX_RETRIES exampleConfig = 4" "THROTTLE_MS exampleConfig = 800"
    by (simp_all add: exampleConfig_def)
  have r: "rate_limited (limitedFourTimes 0 exampleRequest)"
    "rate_limited (limitedFourTimes 1 exampleRequest)"
    "rate_limited (limitedFourTimes 2 exampleRequest)"
    "rate_limited (limitedFourTimes 3 exampleRequest)"
    by (simp_all add: limitedFourTimes_def)
  have lim: "\<And>n. n < 4 \<Longrightarrow> rate_limited (limitedFourTimes n exampleRequest)"
    by (simp add: limitedFourTimes_def)
  have ok: "\<And>n. \<not> n < 4 \<Longrightarrow> fetchSlice exampleBuiltins (limitedFourTimes n exampleRequest)
              = Inr [rowToFeature exampleBuiltins rowA]"
    by (simp add: limitedFourTimes_def fetchSlice_def)
  have "fetchSliceRetry exampleBuiltins exampleConfig limitedFourTimes exampleRequest emptyWorld
       = (Inr [rowToFeature exampleBuiltins rowA],
          emptyWorld\<lparr> requests := 5, sleeps := [15000, 30000, 45000, 60000, 800] \<rparr>)"
    by (simp add: fetchSliceRetry_def emptyWorld_def retry_limited retry_success m lim ok)
  then show ?thesis using m r by simp
qed

section \<open>Window planner\<close>

lemma windows_from_step:
  "d \<le> ndays \<Longrightarrow>
   windows_from dmax y m ndays d ws =
   windows_from dmax y m ndays (d + dmax)
     (ws @ [\<lparr> startDateISO = dateISO y m d, dayRange = min dmax (ndays - d + 1) \<rparr>])"
  by (subst windows_from.simps) simp

lemma windows_from_done: "\<not> d \<le> ndays \<Longrightarrow> windows_from dmax y m ndays d ws = Some ws"
  by (subst windows_from.simps) simp

lemma window_count_step:
  assumes "1 \<le> dmax" and "d \<le> ndays"
  shows "nat ((ndays - d) div dmax + 1) = Suc (nat ((ndays - (d + dmax)) div dmax + 1))"
proof -
  have nz: "dmax \<noteq> 0" using assms(1) by simp
  have e: "ndays - d = ndays - (d + dmax) + dmax" by simp
  have "(ndays - d) div dmax = (ndays - (d + dmax)) div dmax + 1"
    by (subst e) (rule div_add_self2 [OF nz])
  moreover have "0 \<le> (ndays - d) div dmax"
    using assms by (simp add: pos_imp_zdiv_nonneg_iff)
  ultimately show ?thesis by simp
qed

lemma windows_from_closed:
  assumes "1 \<le> dmax"
  shows "windows_from dmax y m ndays d ws =
         Some (ws @ map (\<lambda>k. \<lparr> startDateISO = dateISO y m (d + int k * dmax),
                                  dayRange = min dmax (ndays - (d + int k * dmax) + 1) \<rparr>)
                        [0..<nat ((ndays - d) div dmax + 1)])"
proof (induction "nat (ndays + 1 - d)" arbitrary: d ws rule: less_induct)
  case less
  show ?case
  proof (cases "d \<le> ndays")
    case False
    then have "(ndays - d) div dmax < 0"
      using assms by (simp add: pos_imp_zdiv_neg_iff)
    then have "nat ((ndays - d) div dmax + 1) = 0" by simp
    then show ?thesis using False by (simp add: windows_from_done)
  next
    case True
    let ?W = "\<lambda>d. \<lparr> startDateISO = dateISO y m d, dayRange = min dmax (ndays - d + 1) \<rparr>"
    let ?n = "nat ((ndays - (d + dmax)) div dmax + 1)"
    have smaller: "nat (ndays + 1 - (d + dmax)) < nat (ndays + 1 - d)"
      using assms True by simp
    have cnt: "nat ((ndays - d) div dmax + 1) = Suc ?n"
      using assms True by (rule window_count_step)
    have "windows_from dmax y m ndays d ws = windows_from dmax y m ndays (d + dmax) (ws @ [?W d])"
      using True by (rule windows_from_step)
    also have "\<dots> = Some ((ws @ [?W d]) @ map (\<lambda>k. ?W (d + dmax + int k * dmax)) [0..<?n])"
      using less [OF smaller] .
    also have "(ws @ [?W d]) @ map (\<lambda>k. ?W (d + dmax + int k * dmax)) [0..<?n]
               = ws @ map (\<lambda>k. ?W (d + int k * dmax)) [0..<Suc ?n]"
    proof -
      have "map (\<lambda>k. ?W (d + int k * dmax)) [0..<Suc ?n]
            = ?W d # map (\<lambda>k. ?W (d + int k * dmax)) (map Suc [0..<?n])"
        by (simp only: map_Suc_upt upt_conv_Cons [of 0 "Suc ?n"]) simp
      also have "map (\<lambda>k. ?W (d + int k * dmax)) (map Suc [0..<?n])
                 = map (\<lambda>k. ?W (d + dmax + int k * dmax)) [0..<?n]"
        by (simp add: algebra_simps)
      finally show ?thesis by simp
    qed
    finally show ?thesis using cnt by simp
  qed
qed

lemma planWindows_closed:
  assumes "1 \<le> dmax" and "daysInMonth y m = Some N"
  shows "planWindows dmax y m =
         Some (map (\<lambda>k. \<lparr> startDateISO = dateISO y m (1 + int k * dmax),
                             dayRange = min dmax (N - int k * dmax) \<rparr>)
                   [0..<nat ((N - 1) div dmax + 1)])"
  using windows_from_closed [OF assms(1), of y m N 1 "[]"] assms(2)
  by (simp add: planWindows_def algebra_simps)

lemma planWindows_invalid_date: "daysInMonth y m = None \<Longrightarrow> planWindows dmax y m = Some []"
  by (simp add: planWindows_def)

lemma daysInMonth_bounds: "daysInMonth y m = Some N \<Longrightarrow> 28 \<le> N \<and> N \<le> 31"
  by (auto simp: daysInMonth_def month_length_def Let_def split: if_splits)

lemma div_times_le:
  assumes "1 \<le> (b :: int)"
  shows "a div b * b \<le> a \<and> a < (a div b + 1) * b"
proof -
  have e: "a = b * (a div b) + a mod b" by simp
  have "0 \<le> a mod b" "a mod b < b" using assms by simp_all
  with e have "b * (a div b) \<le> a" "a < b + b * (a div b)" by linarith+
  then show ?thesis by (simp add: algebra_simps)
qed

lemma window_full:
  assumes "1 \<le> dmax" and "int i + 1 < (N - 1) div dmax + 1"
  shows "dmax \<le> N - int i * dmax"
proof -
  have "int i + 1 \<le> (N - 1) div dmax" using assms(2) by simp
  then have "(int i + 1) * dmax \<le> (N - 1) div dmax * dmax"
    using assms(1) by (simp add: mult_right_mono)
  also have "\<dots> \<le> N - 1"
    using div_times_le [OF assms(1), of "N - 1"] by simp
  finally show ?thesis by (simp add: algebra_simps)
qed

lemma window_last:
  assumes "1 \<le> dmax" and "int i + 1 = (N - 1) div dmax + 1"
  shows "1 \<le> N - int i * dmax \<and> N - int i * dmax \<le> dmax"
proof -
  have i: "int i = (N - 1) div dmax" using assms(2) by simp
  show ?thesis
    using div_times_le [OF assms(1), of "N - 1"] unfolding i [symmetric]
    by (simp add: algebra_simps)
qed

lemma daysInMonth_table:
  assumes "1 \<le> m \<and> m \<le> 12" and "daysInMonth y m = Some N"
  shows "N = month_length (if 0 \<le> y \<and> y \<le> 99 then 1900 + y else y) m"
proof -
  have "(m - 1) div 12 = 0" "(m - 1) mod 12 = m - 1" using assms(1) by simp_all
  then show ?thesis using assms(2) by (auto simp: daysInMonth_def Let_def split: if_splits)
qed

lemma DayFromYear_bounds:
  "400 * DayFromYear y \<le> 146097 * y - 287810000"
  "146097 * y - 287812000 \<le> 400 * DayFromYear y"
proof -
  define q4 where "q4 = (y - 1969) div 4"
  define q100 where "q100 = (y - 1901) div 100"
  define q400 where "q400 = (y - 1601) div 400"
  have a: "4 * q4 \<le> y - 1969" "y - 1972 \<le> 4 * q4"
    unfolding q4_def using div_times_le [of 4 "y - 1969"] by simp_all
  have b: "100 * q100 \<le> y - 1901" "y - 2000 \<le> 100 * q100"
    unfolding q100_def using div_times_le [of 100 "y - 1901"] by simp_all
  have c: "400 * q400 \<le> y - 1601" "y - 2000 \<le> 400 * q400"
    unfolding q400_def using div_times_le [of 400 "y - 1601"] by simp_all
  have d: "400 * DayFromYear y
           = 146000 * y - 287620000 + 400 * q4 - 400 * q100 + 400 * q400"
    by (simp add: DayFromYear_def q4_def q100_def q400_def algebra_simps)
  have a': "400 * q4 \<le> 100 * y - 196900" "100 * y - 197200 \<le> 400 * q4"
    using a by simp_all
  have b': "4 * y - 8000 \<le> 400 * q100" "400 * q100 \<le> 4 * y - 7604"
    using b by simp_all
  show "400 * DayFromYear y \<le> 146097 * y - 287810000"
    unfolding d using a'(1) b'(1) c(1) by linarith
  show "146097 * y - 287812000 \<le> 400 * DayFromYear y"
    unfolding d using a'(2) b'(2) c(2) by linarith
qed

lemma days_before_month_bounds: "0 \<le> days_before_month y mo \<and> days_before_month y mo \<le> 335"
  by (simp add: days_before_month_def)

text \<open>
  Every month of the years from -271820 to 275759, the complete years that a \<open>Date\<close>
  reaches, has a valid date, and its length is the one of the Gregorian calendar.
\<close>

lemma daysInMonth_in_range:
  assumes "1 \<le> m \<and> m \<le> 12" and "- 271820 \<le> y \<and> y \<le> 275759"
  shows "daysInMonth y m = Some (month_length (if 0 \<le> y \<and> y \<le> 99 then 1900 + y else y) m)"
proof -
  let ?yr = "if 0 \<le> y \<and> y \<le> 99 then 1900 + y else y"
  have m: "(m - 1) div 12 = 0" "(m - 1) mod 12 = m - 1" using assms(1) by simp_all
  have yr: "- 271820 \<le> ?yr \<and> ?yr \<le> 275759" using assms(2) by simp
  have len: "28 \<le> month_length ?yr m \<and> month_length ?yr m \<le> 31"
    by (simp add: month_length_def)
  have "- 100000000 \<le> DayFromYear ?yr + days_before_month ?yr m + month_length ?yr m - 1"
    using DayFromYear_bounds(2) [of ?yr] days_before_month_bounds [of ?yr m] len yr by linarith
  moreover have "DayFromYear ?yr + days_before_month ?yr m + month_length ?yr m - 1 \<le> 100000000"
    using DayFromYear_bounds(1) [of ?yr] days_before_month_bounds [of ?yr m] len yr by linarith
  ultimately show ?thesis
    using m by (simp add: daysInMonth_def Let_def)
qed

text \<open>
  Claim C6. For a ceiling of at least one day, and a year and month for which the date is
  valid (\<open>N\<close> is then a number, the last day of the month), the planner returns the windows that
  start on the days 1, 1 + ceiling, 1 + 2 * ceiling, ... in this order; each one spans the
  ceiling except the last, which spans the days that remain up to day \<open>N\<close> (between one day and
  the ceiling). A month of 31 days and a ceiling of 10 give the spans 10, 10, 10, 1 from the
  days 1, 11, 21, 31; a month of 28 days gives 10, 10, 8. \<open>N\<close> is the length of the month in
  the Gregorian calendar, February having 29 days in a leap year.
\<close>

theorem window_planner_partitions_month:
  assumes "1 \<le> dmax" and "daysInMonth y m = Some N"
  shows "\<exists>ws. planWindows dmax y m = Some ws
     \<and> length ws = nat ((N - 1) div dmax + 1)
     \<and> (\<forall>i < length ws.
           startDateISO (ws ! i) = dateISO y m (1 + int i * dmax)
           \<and> dayRange (ws ! i) = (if Suc i < length ws then dmax else N - int i * dmax)
           \<and> 1 \<le> dayRange (ws ! i) \<and> dayRange (ws ! i) \<le> dmax)
     \<and> (N = 31 \<and> dmax = 10 \<longrightarrow>
           map dayRange ws = [10, 10, 10, 1]
           \<and> map startDateISO ws = map (dateISO y m) [1, 11, 21, 31])
     \<and> (N = 28 \<and> dmax = 10 \<longrightarrow> map dayRange ws = [10, 10, 8])
     \<and> (1 \<le> m \<and> m \<le> 12 \<longrightarrow>
           N = month_length (if 0 \<le> y \<and> y \<le> 99 then 1900 + y else y) m)
     \<and> month_length y 2 = (if leap_year y then 29 else 28)"
proof -
  let ?f = "\<lambda>k. \<lparr> startDateISO = dateISO y m (1 + int k * dmax),
                   dayRange = min dmax (N - int k * dmax) \<rparr>"
  let ?n = "nat ((N - 1) div dmax + 1)"
  let ?ws = "map ?f [0..<?n]"
  have plan: "planWindows dmax y m = Some ?ws"
    using assms by (rule planWindows_closed)
  have len: "length ?ws = ?n" by simp
  have q: "0 \<le> (N - 1) div dmax"
    using assms(1) daysInMonth_bounds [OF assms(2)] by (simp add: pos_imp_zdiv_nonneg_iff)
  have each: "\<forall>i < length ?ws.
           startDateISO (?ws ! i) = dateISO y m (1 + int i * dmax)
           \<and> dayRange (?ws ! i) = (if Suc i < length ?ws then dmax else N - int i * dmax)
           \<and> 1 \<le> dayRange (?ws ! i) \<and> dayRange (?ws ! i) \<le> dmax"
  proof (intro allI impI)
    fix i assume "i < length ?ws"
    then have i: "i < ?n" by simp
    then have at: "?ws ! i = ?f i" by simp
    show "startDateISO (?ws ! i) = dateISO y m (1 + int i * dmax)
           \<and> dayRange (?ws ! i) = (if Suc i < length ?ws then dmax else N - int i * dmax)
           \<and> 1 \<le> dayRange (?ws ! i) \<and> dayRange (?ws ! i) \<le> dmax"
    proof (cases "Suc i < ?n")
      case True
      then have "int i + 1 < (N - 1) div dmax + 1" using q by linarith
      then have "dmax \<le> N - int i * dmax" using assms(1) window_full by blast
      then show ?thesis using True assms(1) by (simp add: at)
    next
      case False
      then have "Suc i = ?n" using i by simp
      then have "int i + 1 = (N - 1) div dmax + 1" using q by linarith
      then have "1 \<le> N - int i * dmax \<and> N - int i * dmax \<le> dmax"
        using assms(1) window_last by blast
      then show ?thesis using False by (simp add: at)
    qed
  qed
  have m31: "N = 31 \<and> dmax = 10 \<longrightarrow>
           map dayRange ?ws = [10, 10, 10, 1]
           \<and> map startDateISO ?ws = map (dateISO y m) [1, 11, 21, 31]"
  proof
    assume h: "N = 31 \<and> dmax = 10"
    then have "?n = 4" by simp
    moreover have "[0..<4] = [0, 1, 2, Suc 2]" by (simp add: upt_rec)
    ultimately show "map dayRange ?ws = [10, 10, 10, 1]
           \<and> map startDateISO ?ws = map (dateISO y m) [1, 11, 21, 31]"
      using h by simp
  qed
  have m28: "N = 28 \<and> dmax = 10 \<longrightarrow> map dayRange ?ws = [10, 10, 8]"
  proof
    assume h: "N = 28 \<and> dmax = 10"
    then have "?n = 3" by simp
    moreover have "[0..<3] = [0, 1, 2]" by (simp add: upt_rec)
    ultimately show "map dayRange ?ws = [10, 10, 8]"
      using h by simp
  qed
  have cal: "1 \<le> m \<and> m \<le> 12 \<longrightarrow>
           N = month_length (if 0 \<le> y \<and> y \<le> 99 then 1900 + y else y) m"
    using daysInMonth_table assms(2) by blast
  have feb: "month_length y 2 = (if leap_year y then 29 else 28)"
    by (simp add: month_length_def)
  show ?thesis
    by (intro exI [of _ ?ws] conjI) (rule plan len each m31 m28 cal feb)+
qed

lemmas calendar_defs =
  daysInMonth_def DayFromYear_def days_before_month_def month_length_def leap_year_def Let_def

theorem window_planner_partitions_month_witness:
  "(1 :: int) \<le> 10
   \<and> daysInMonth 2021 1 = Some 31 \<and> daysInMonth 2024 2 = Some 29 \<and> daysInMonth 1900 2 = Some 28
   \<and> (\<exists>ws. planWindows 10 2021 1 = Some ws
         \<and> length ws = 4
         \<and> map dayRange ws = [10, 10, 10, 1]
         \<and> map startDateISO ws = [''2021-01-01'', ''2021-01-11'', ''2021-01-21'', ''2021-01-31''])
   \<and> daysInMonth 300000 1 = None \<and> planWindows 10 300000 1 = Some []"
proof -
  have d: "daysInMonth 2021 1 = Some 31" "daysInMonth 2024 2 = Some 29"
    "daysInMonth 1900 2 = Some 28" "daysInMonth 300000 1 = None"
    by (simp_all add: calendar_defs)
  have iso: "map (dateISO 2021 1) [1, 11, 21, 31]
             = [''2021-01-01'', ''2021-01-11'', ''2021-01-21'', ''2021-01-31'']"
    by (simp add: dateISO_def print_number)
  have one: "(1 :: int) \<le> 10" by simp
  obtain ws where ws: "planWindows 10 2021 1 = Some ws"
      "length ws = nat (((31 :: int) - 1) div 10 + 1)"
      "(31 :: int) = 31 \<and> (10 :: int) = 10 \<longrightarrow>
           map dayRange ws = [10, 10, 10, 1]
           \<and> map startDateISO ws = map (dateISO 2021 1) [1, 11, 21, 31]"
    using window_planner_partitions_month [OF one d(1)] by auto
  have "length ws = 4" using ws(2) by simp
  moreover have "map dayRange ws = [10, 10, 10, 1]" using ws(3) by simp
  moreover have "map startDateISO ws = [''2021-01-01'', ''2021-01-11'', ''2021-01-21'', ''2021-01-31'']"
    using ws(3) iso by simp
  ultimately show ?thesis using ws(1) d by (simp add: planWindows_invalid_date)
qed

section \<open>Month assembler\<close>

lemma planWindows_DAY_MAX: "\<exists>ws. planWindows DAY_MAX y m = Some ws"
proof (cases "daysInMonth y m")
  case None
  then show ?thesis by (simp add: planWindows_invalid_date)
next
  case (Some N)
  then show ?thesis using planWindows_closed [of DAY_MAX y m N] by (simp add: DAY_MAX_def)
qed

lemma retry_never_returns_limit:
  "fetchSliceRetry_from B cfg up args attempt w = (Inl err, w') \<Longrightarrow>
   httpStatusFromError err \<noteq> Some 403 \<and> httpStatusFromError err \<noteq> Some 429"
proof (induction B cfg up args attempt w rule: fetchSliceRetry_from.induct)
  case (1 B cfg up args attempt w)
  show ?case
  proof (cases "attempt \<le> MAX_RETRIES cfg")
    case False
    then show ?thesis using "1.prems" by (simp add: retry_exhausted)
  next
    case True
    show ?thesis
    proof (cases "fetchSlice B (up (requests w) args)")
      case (Inr out)
      then show ?thesis using True "1.prems" by (simp add: retry_success)
    next
      case (Inl e)
      show ?thesis
      proof (cases "httpStatusFromError e = Some 403 \<or> httpStatusFromError e = Some 429")
        case False
        then show ?thesis
          using True Inl "1.prems" by (subst (asm) fetchSliceRetry_from.simps) (auto simp: Let_def)
      next
        case lim: True
        have "fetchSliceRetry_from B cfg up args (attempt + 1)
                (w\<lparr> requests := requests w + 1,
                    sleeps := sleeps w @ [min 120000 (15000 * (attempt + 1))] \<rparr>) = (Inl err, w')"
          using True Inl lim "1.prems" by (subst (asm) fetchSliceRetry_from.simps) (simp add: Let_def)
        then show ?thesis
          using "1.IH" [OF True Inl refl lim refl] by simp
      qed
    qed
  qed
qed

lemma window_loop_sawLimit:
  "fst (snd (window_loop B cfg up s wds (uniq, sawLimit, w))) = sawLimit"
proof (induction wds arbitrary: uniq w)
  case Nil
  show ?case by simp
next
  case (Cons wd wds)
  obtain r w' where f: "fetchSliceRetry B cfg up
             \<lparr> startDateISO = startDateISO wd, dayRange = dayRange wd,
               source = s, bbox = BBOX cfg \<rparr> w = (r, w')"
    by (cases "fetchSliceRetry B cfg up
             \<lparr> startDateISO = startDateISO wd, dayRange = dayRange wd,
               source = s, bbox = BBOX cfg \<rparr> w") blast
  show ?case
  proof (cases r)
    case (Inr feats)
    then show ?thesis using f Cons.IH by simp
  next
    case (Inl err)
    then have "httpStatusFromError err \<noteq> Some 403 \<and> httpStatusFromError err \<noteq> Some 429"
      using f retry_never_returns_limit by (simp add: fetchSliceRetry_def)
    then show ?thesis using f Inl Cons.IH by (simp add: Let_def)
  qed
qed

lemma source_loop_step:
  "source_loop B cfg up mk wds (s # srcs) st =
     (case SOURCE_START s of
        Inherited \<Rightarrow> Inl (TypeError, snd (snd st))
      | Own d \<Rightarrow> if ymLt mk (take 7 d) then source_loop B cfg up mk wds srcs st
                 else source_loop B cfg up mk wds srcs (window_loop B cfg up s wds st)
      | Absent \<Rightarrow> if ymLt mk (take 7 ''1900-01-01'') then source_loop B cfg up mk wds srcs st
                  else source_loop B cfg up mk wds srcs (window_loop B cfg up s wds st))"
  by (cases "SOURCE_START s") simp_all

lemma source_loop_sawLimit:
  "source_loop B cfg up mk wds srcs (uniq, sawLimit, w) = Inr (u', sl', w') \<Longrightarrow> sl' = sawLimit"
proof (induction srcs arbitrary: uniq w)
  case Nil
  then show ?case by simp
next
  case (Cons s srcs)
  obtain u1 sl1 w1 where wl: "window_loop B cfg up s wds (uniq, sawLimit, w) = (u1, sl1, w1)"
    by (cases "window_loop B cfg up s wds (uniq, sawLimit, w)") blast
  then have sl1: "sl1 = sawLimit"
    using window_loop_sawLimit [of B cfg up s wds uniq sawLimit w] by simp
  show ?case
    using Cons.prems Cons.IH wl sl1
    by (cases "SOURCE_START s") (auto simp del: source_loop.simps simp: source_loop_step split: if_splits)
qed


lemma source_loop_returns:
  "\<forall>s \<in> set srcs. SOURCE_START s \<noteq> Inherited \<Longrightarrow>
   \<exists>st'. source_loop B cfg up mk wds srcs st = Inr st'"
proof (induction srcs arbitrary: st)
  case Nil
  show ?case by (rule exI [of _ st]) simp
next
  case (Cons s srcs)
  then show ?case
    by (cases "SOURCE_START s") (simp_all del: source_loop.simps add: source_loop_step)
qed




lemma retry_always_limited:
  assumes "\<forall>n req. rate_limited (up n req)"
  shows "fst (fetchSliceRetry B cfg up args w) = Inr []"
  using retry_all_limited [of "nat (MAX_RETRIES cfg + 1 - 0)" up w args cfg 0 B] assms
  by (simp add: fetchSliceRetry_def)

lemma window_loop_always_limited:
  assumes "\<forall>n req. rate_limited (up n req)"
  shows "fst (window_loop B cfg up s wds (uniq, sawLimit, w)) = uniq"
proof (induction wds arbitrary: w)
  case Nil
  show ?case by simp
next
  case (Cons wd wds)
  obtain r w' where f: "fetchSliceRetry B cfg up
             \<lparr> startDateISO = startDateISO wd, dayRange = dayRange wd,
               source = s, bbox = BBOX cfg \<rparr> w = (r, w')"
    by (cases "fetchSliceRetry B cfg up
             \<lparr> startDateISO = startDateISO wd, dayRange = dayRange wd,
               source = s, bbox = BBOX cfg \<rparr> w") blast
  then have "r = Inr []"
    using retry_always_limited [OF assms, of B cfg "\<lparr> startDateISO = startDateISO wd,
            dayRange = dayRange wd, source = s, bbox = BBOX cfg \<rparr>" w] by simp
  then show ?case using f Cons.IH by (simp add: uniq_fold_def)
qed

lemma source_loop_always_limited:
  assumes "\<forall>n req. rate_limited (up n req)"
  shows "source_loop B cfg up mk wds srcs (uniq, sawLimit, w) = Inr (u', sl', w') \<Longrightarrow> u' = uniq"
proof (induction srcs arbitrary: w)
  case Nil
  then show ?case by simp
next
  case (Cons s srcs)
  obtain u1 sl1 w1 where wl: "window_loop B cfg up s wds (uniq, sawLimit, w) = (u1, sl1, w1)"
    by (cases "window_loop B cfg up s wds (uniq, sawLimit, w)") blast
  then have "u1 = uniq" "sl1 = sawLimit"
    using window_loop_always_limited [OF assms, of B cfg s wds uniq sawLimit w]
          window_loop_sawLimit [of B cfg up s wds uniq sawLimit w] by simp_all
  then show ?case
    using Cons.prems Cons.IH wl
    by (cases "SOURCE_START s") (auto simp del: source_loop.simps simp: source_loop_step split: if_splits)
qed

text \<open>
  Whatever the month and the configuration, as long as no source is named like an inherited
  property: when every request of the run is answered by a rate limit, the month is not
  deferred but written, as an empty collection.
\<close>

lemma always_limited_month_written_empty:
  assumes "\<forall>n req. rate_limited (up n req)"
    and "\<forall>s \<in> set (SOURCES cfg). SOURCE_START s \<noteq> Inherited"
  shows "\<exists>w'. rebuildMonth B cfg up y m w = Some (Inr (Written 0), w')
            \<and> files w' (outfile_of cfg (monthKey_of y m)) = Some (Json (Some []))"
proof -
  obtain ws where ws: "planWindows DAY_MAX y m = Some ws"
    using planWindows_DAY_MAX by blast
  obtain st where st0: "source_loop B cfg up (monthKey_of y m) ws (SOURCES cfg) ([], False, w) = Inr st"
    using source_loop_returns [OF assms(2)] by blast
  obtain u sl w' where st: "st = (u, sl, w')" by (cases st) blast
  have sl: "source_loop B cfg up (monthKey_of y m) ws (SOURCES cfg) ([], False, w) = Inr (u, sl, w')"
    using st0 st by simp
  have "u = []" using source_loop_always_limited [OF assms(1) sl] .
  moreover have "sl = False" using source_loop_sawLimit [OF sl] .
  ultimately show ?thesis using ws sl by (simp add: rebuildMonth_def Let_def jm_size_def jm_values_def)
qed

lemma outfile_example:
  "outfile_of exampleConfig (monthKey_of 2020 1) = ''data/firms/CA-2020-01.geojson''"
  "outfile_of (exampleConfig\<lparr> retryEmpty := False \<rparr>) (monthKey_of 2020 1)
     = ''data/firms/CA-2020-01.geojson''"
  by (simp_all add: outfile_of_def monthKey_of_def exampleConfig_def print_number)

lemma example_sources:
  "\<forall>s \<in> set (SOURCES exampleConfig). SOURCE_START s \<noteq> Inherited"
  "\<forall>s \<in> set (SOURCES (exampleConfig\<lparr> retryEmpty := False \<rparr>)). SOURCE_START s \<noteq> Inherited"
  by (simp_all add: exampleConfig_def SOURCE_START_def)

text \<open>
  Claim C1 fails on the code. Every request of January 2020 is answered with HTTP 429, no
  file exists yet, and the month is written with zero features instead of being deferred:
  \<open>fetchSliceRetry\<close> turns the exhausted retries into an empty result, so \<open>prebakeMonth\<close>
  never sees the error that would set \<open>sawLimit\<close>.
\<close>

theorem rate_limited_month_is_written_empty:
  "rate_limited (alwaysLimited 0 exampleRequest)
   \<and> files emptyWorld ''data/firms/CA-2020-01.geojson'' = None
   \<and> (\<exists>w'. prebakeMonth exampleBuiltins exampleConfig alwaysLimited 2020 1 emptyWorld
               = Some (Inr (Written 0), w')
            \<and> files w' ''data/firms/CA-2020-01.geojson'' = Some (Json (Some [])))"
proof -
  have lim: "\<forall>n req. rate_limited (alwaysLimited n req)"
    by (simp add: alwaysLimited_def)
  have none: "files emptyWorld ''data/firms/CA-2020-01.geojson'' = None"
    by (simp add: emptyWorld_def)
  have "prebakeMonth exampleBuiltins exampleConfig alwaysLimited 2020 1 emptyWorld
        = rebuildMonth exampleBuiltins exampleConfig alwaysLimited 2020 1 emptyWorld"
    using none by (simp add: prebakeMonth_def outfile_example Let_def)
  then show ?thesis
    using always_limited_month_written_empty
            [OF lim example_sources(1), of exampleBuiltins 2020 1 emptyWorld]
          lim none
    by (simp add: outfile_example)
qed




section \<open>Deduplication\<close>

lemma rows_import:
  "rowToFeature_import exampleBuiltins exampleBox rowA = Some featA"
  "rowToFeature_import exampleBuiltins exampleBox rowB = Some featB"
  by (simp_all add: rowToFeature_import_def rowA_def rowB_def featA_def featB_def exampleBuiltins_def
        exampleBox_def isInBox_def js_ge_def Let_def)

lemma rows_prebake_key:
  "featureKey exampleBuiltins (rowToFeature exampleBuiltins rowA)
     = ''-120.2500:34.5000:2020-01-15:0130:MODIS:Terra''"
  "featureKey exampleBuiltins (rowToFeature exampleBuiltins rowB)
     = ''-120.2500:34.5000:2020-01-15:0130:MODIS:Terra''"
  by (simp_all add: featureKey_def rowToFeature_def rowA_def rowB_def exampleBuiltins_def js_or_def
        print_number)

lemma rows_prebake_frp:
  "frp (properties (rowToFeature exampleBuiltins rowA)) = JNum (Fin (25 / 2))"
  "frp (properties (rowToFeature exampleBuiltins rowB)) = JNum (Fin (15 / 2))"
  by (simp_all add: rowToFeature_def rowA_def rowB_def exampleBuiltins_def Let_def)

lemma january_2020_windows:
  "planWindows DAY_MAX 2020 1 =
   Some [\<lparr> startDateISO = ''2020-01-01'', dayRange = 10 \<rparr>,
         \<lparr> startDateISO = ''2020-01-11'', dayRange = 10 \<rparr>,
         \<lparr> startDateISO = ''2020-01-21'', dayRange = 10 \<rparr>,
         \<lparr> startDateISO = ''2020-01-31'', dayRange = 1 \<rparr>]"
  by (simp add: planWindows_def DAY_MAX_def calendar_defs
        windows_from_step windows_from_done dateISO_def print_number)

lemma retry_first_success:
  assumes "0 \<le> MAX_RETRIES cfg" and "fetchSlice B (up (requests w) args) = Inr out"
  shows "fetchSliceRetry B cfg up args w =
         (Inr out, w\<lparr> requests := requests w + 1, sleeps := sleeps w @ [THROTTLE_MS cfg] \<rparr>)"
  using assms by (simp add: fetchSliceRetry_def retry_success)

lemma twoSources_answers:
  "fetchSlice exampleBuiltins (twoSources n \<lparr> startDateISO = ''2020-01-01'', dayRange = r,
       source = ''MODIS_SP'', bbox = b \<rparr>) = Inr [rowToFeature exampleBuiltins rowA]"
  "fetchSlice exampleBuiltins (twoSources n \<lparr> startDateISO = ''2020-01-01'', dayRange = r,
       source = ''VIIRS_SNPP_SP'', bbox = b \<rparr>) = Inr [rowToFeature exampleBuiltins rowB]"
  "fetchSlice exampleBuiltins (twoSources n \<lparr> startDateISO = ''2020-01-11'', dayRange = r,
       source = s, bbox = b \<rparr>) = Inr []"
  "fetchSlice exampleBuiltins (twoSources n \<lparr> startDateISO = ''2020-01-21'', dayRange = r,
       source = s, bbox = b \<rparr>) = Inr []"
  "fetchSlice exampleBuiltins (twoSources n \<lparr> startDateISO = ''2020-01-31'', dayRange = r,
       source = s, bbox = b \<rparr>) = Inr []"
  by (simp_all add: twoSources_def fetchSlice_def)

text \<open>
  End to end in the prebake tool: the two sources return the same detection with a different
  fire radiative power, and the month's file holds one feature, the one of the first source.
\<close>

lemma two_sources_one_feature:
  "\<exists>w'. prebakeMonth exampleBuiltins twoSourcesConfig twoSources 2020 1 emptyWorld
          = Some (Inr (Written 1), w')
        \<and> requests w' = 8
        \<and> files w' ''data/firms/CA-2020-01.geojson''
            = Some (Json (Some [rowToFeature exampleBuiltins rowA]))"
proof -
  have cfg: "MAX_RETRIES twoSourcesConfig = 4" "SOURCES twoSourcesConfig = [''MODIS_SP'', ''VIIRS_SNPP_SP'']"
    "OUTDIR twoSourcesConfig = ''data/firms''" "retryEmpty twoSourcesConfig"
    by (simp_all add: twoSourcesConfig_def exampleConfig_def)
  have out: "outfile_of twoSourcesConfig (monthKey_of 2020 1) = ''data/firms/CA-2020-01.geojson''"
    by (simp add: outfile_of_def monthKey_of_def cfg print_number)
  have mk: "monthKey_of 2020 1 = ''2020-01''"
    by (simp add: monthKey_of_def print_number)
  have starts: "SOURCE_START ''MODIS_SP'' = Own ''2000-11-01''"
    "SOURCE_START ''VIIRS_SNPP_SP'' = Own ''2012-01-20''"
    by (simp_all add: SOURCE_START_def)
  have lt: "\<not> ymLt ''2020-01'' ''2000-11''" "\<not> ymLt ''2020-01'' ''2012-01''"
    by simp_all
  have out2: "outfile_of twoSourcesConfig ''2020-01'' = ''data/firms/CA-2020-01.geojson''"
    by (simp add: outfile_of_def cfg)
  have pre: "prebakeMonth exampleBuiltins twoSourcesConfig twoSources 2020 1 emptyWorld
        = rebuildMonth exampleBuiltins twoSourcesConfig twoSources 2020 1 emptyWorld"
    by (simp add: prebakeMonth_def out emptyWorld_def Let_def)
  have loop: "source_loop exampleBuiltins twoSourcesConfig twoSources ''2020-01''
          [\<lparr> startDateISO = ''2020-01-01'', dayRange = 10 \<rparr>,
           \<lparr> startDateISO = ''2020-01-11'', dayRange = 10 \<rparr>,
           \<lparr> startDateISO = ''2020-01-21'', dayRange = 10 \<rparr>,
           \<lparr> startDateISO = ''2020-01-31'', dayRange = 1 \<rparr>]
          [''MODIS_SP'', ''VIIRS_SNPP_SP''] ([], False, emptyWorld)
        = Inr ([(''-120.2500:34.5000:2020-01-15:0130:MODIS:Terra'', rowToFeature exampleBuiltins rowA)],
           False,
           emptyWorld\<lparr> requests := 8,
                        sleeps := [THROTTLE_MS twoSourcesConfig, THROTTLE_MS twoSourcesConfig,
                                   THROTTLE_MS twoSourcesConfig, THROTTLE_MS twoSourcesConfig,
                                   THROTTLE_MS twoSourcesConfig, THROTTLE_MS twoSourcesConfig,
                                   THROTTLE_MS twoSourcesConfig, THROTTLE_MS twoSourcesConfig] \<rparr>)"
    by (simp add: starts lt retry_first_success cfg twoSources_answers uniq_fold_def uniq_add_def
          jm_has_def rows_prebake_key emptyWorld_def Let_def)
  show ?thesis
    unfolding pre
    by (simp add: rebuildMonth_def january_2020_windows mk out2 cfg loop jm_size_def jm_values_def
          Let_def del: source_loop.simps)
qed

text \<open>
  Claim C2, as the code has it. In the prebake tool, folding a feature whose identity key is
  already in the bucket leaves the bucket unchanged, so of two features with the same key the
  first one folded is the one in the month's output. In the import tool the feature is stored
  under its key whether the key is present or not, so there the last one folded is the one in
  the month's output.
\<close>

theorem dedup_first_seen_prebake_last_seen_import:
  "(jm_has uniq (featureKey B f) \<longrightarrow> uniq_add B uniq f = uniq)
   \<and> (featureKey B a = featureKey B b \<longrightarrow> jm_values (uniq_fold B [] [a, b]) = [a])
   \<and> (toMonthKey (acq_date (properties f)) = Inr mk \<longrightarrow>
        (\<exists>bs' bkt. buckets_add B bs f = Inr bs' \<and> jm_get bs' mk = Some bkt
                    \<and> jm_get bkt (featureKey B f) = Some f))
   \<and> (featureKey B a = featureKey B b \<and> toMonthKey (acq_date (properties a)) = Inr mk
        \<and> toMonthKey (acq_date (properties b)) = Inr mk \<longrightarrow>
        (\<exists>bs'. buckets_fold B [] [a, b] = Inr bs' \<and> month_output bs' mk = [b]))"
proof (intro conjI impI)
  assume "jm_has uniq (featureKey B f)"
  then show "uniq_add B uniq f = uniq" by (rule uniq_add_present)
next
  assume "featureKey B a = featureKey B b"
  then show "jm_values (uniq_fold B [] [a, b]) = [a]"
    by (simp add: uniq_fold_pair_same jm_values_def)
next
  assume "toMonthKey (acq_date (properties f)) = Inr mk"
  then show "\<exists>bs' bkt. buckets_add B bs f = Inr bs' \<and> jm_get bs' mk = Some bkt
                    \<and> jm_get bkt (featureKey B f) = Some f"
    by (rule buckets_add_stores)
next
  assume h: "featureKey B a = featureKey B b \<and> toMonthKey (acq_date (properties a)) = Inr mk
        \<and> toMonthKey (acq_date (properties b)) = Inr mk"
  then have "buckets_fold B [] [a, b] = Inr [(mk, [(featureKey B a, b)])]"
    using buckets_fold_pair_same [of B a b mk] by blast
  then show "\<exists>bs'. buckets_fold B [] [a, b] = Inr bs' \<and> month_output bs' mk = [b]"
    by (simp add: month_output_def jm_get_def jm_values_def)
qed

theorem dedup_first_seen_prebake_last_seen_import_witness:
  "jm_has [(featureKey exampleBuiltins featA, featA)] (featureKey exampleBuiltins featB)
   \<and> uniq_add exampleBuiltins [(featureKey exampleBuiltins featA, featA)] featB
       = [(featureKey exampleBuiltins featA, featA)]
   \<and> featureKey exampleBuiltins featA = featureKey exampleBuiltins featB
   \<and> jm_values (uniq_fold exampleBuiltins [] [featA, featB]) = [featA]
   \<and> toMonthKey (acq_date (properties featA)) = Inr ''2020-01''
   \<and> toMonthKey (acq_date (properties featB)) = Inr ''2020-01''
   \<and> (\<exists>bs' bkt. buckets_add exampleBuiltins [] featB = Inr bs' \<and> jm_get bs' ''2020-01'' = Some bkt
                    \<and> jm_get bkt (featureKey exampleBuiltins featB) = Some featB)
   \<and> (\<exists>bs'. buckets_fold exampleBuiltins [] [featA, featB] = Inr bs'
              \<and> month_output bs' ''2020-01'' = [featB])
   \<and> frp (properties (rowToFeature exampleBuiltins rowA)) = JNum (Fin (25 / 2))
   \<and> frp (properties (rowToFeature exampleBuiltins rowB)) = JNum (Fin (15 / 2))
   \<and> (\<exists>w'. prebakeMonth exampleBuiltins twoSourcesConfig twoSources 2020 1 emptyWorld
               = Some (Inr (Written 1), w')
             \<and> requests w' = 8
             \<and> files w' ''data/firms/CA-2020-01.geojson''
                 = Some (Json (Some [rowToFeature exampleBuiltins rowA])))"
proof -
  have k: "featureKey exampleBuiltins featA = featureKey exampleBuiltins featB"
    by (simp add: featureKey_featA featureKey_featB)
  have h: "jm_has [(featureKey exampleBuiltins featA, featA)] (featureKey exampleBuiltins featB)"
    by (simp add: jm_has_def k)
  have mA: "toMonthKey (acq_date (properties featA)) = Inr ''2020-01''"
    by (simp add: featA_def)
  have mB: "toMonthKey (acq_date (properties featB)) = Inr ''2020-01''"
    by (simp add: featA_def featB_def)
  show ?thesis
    using dedup_first_seen_prebake_last_seen_import
            [of "[(featureKey exampleBuiltins featA, featA)]" exampleBuiltins featB featA featB
                "''2020-01''" "[]"]
          k h mA mB rows_prebake_frp two_sources_one_feature
    by simp
qed

text \<open>
  Claim C2 fails in the import tool: two features with the same key and a different fire
  radiative power are folded, the key is present when the second one comes, and the bucket
  then holds the second one.
\<close>

theorem import_keeps_last_duplicate:
  "rowToFeature_import exampleBuiltins exampleBox rowA = Some featA
   \<and> rowToFeature_import exampleBuiltins exampleBox rowB = Some featB
   \<and> featureKey exampleBuiltins featA = featureKey exampleBuiltins featB
   \<and> frp (properties featA) = JStr ''12.5'' \<and> frp (properties featB) = JStr ''7.5''
   \<and> jm_has [(featureKey exampleBuiltins featA, featA)] (featureKey exampleBuiltins featB)
   \<and> buckets_add exampleBuiltins [(''2020-01'', [(featureKey exampleBuiltins featA, featA)])] featB
       = Inr [(''2020-01'', [(featureKey exampleBuiltins featA, featB)])]
   \<and> buckets_fold exampleBuiltins [] [featA, featB]
       = Inr [(''2020-01'', [(featureKey exampleBuiltins featA, featB)])]"
proof -
  have k: "featureKey exampleBuiltins featA = featureKey exampleBuiltins featB"
    by (simp add: featureKey_featA featureKey_featB)
  have mA: "toMonthKey (acq_date (properties featA)) = Inr ''2020-01''"
    by (simp add: featA_def)
  have mB: "toMonthKey (acq_date (properties featB)) = Inr ''2020-01''"
    by (simp add: featA_def featB_def)
  have "frp (properties featA) = JStr ''12.5''" "frp (properties featB) = JStr ''7.5''"
    by (simp_all add: featA_def featB_def)
  moreover have "buckets_add exampleBuiltins [(''2020-01'', [(featureKey exampleBuiltins featA, featA)])] featB
       = Inr [(''2020-01'', [(featureKey exampleBuiltins featA, featB)])]"
    by (simp add: buckets_add_def mB jm_has_def jm_get_def k)
  moreover have "buckets_fold exampleBuiltins [] [featA, featB]
       = Inr [(''2020-01'', [(featureKey exampleBuiltins featA, featB)])]"
    using k mA mB by (rule buckets_fold_pair_same)
  ultimately show ?thesis
    using k rows_import by (simp add: jm_has_def)
qed

text \<open>
  Claim C8. Folding \<open>[a, b]\<close> and folding \<open>[b, a]\<close> into an empty bucket give the same set of
  identity keys, in the prebake tool and, month by month, in the import tool (where both
  orders fail alike on a feature whose date is not a string).
\<close>

theorem dedup_membership_commutes:
  "set (jm_keys (uniq_fold B [] [a, b])) = set (jm_keys (uniq_fold B [] [b, a]))
   \<and> map_sum id key_sets (buckets_fold B [] [a, b])
       = map_sum id key_sets (buckets_fold B [] [b, a])"
proof
  show "set (jm_keys (uniq_fold B [] [a, b])) = set (jm_keys (uniq_fold B [] [b, a]))"
    by (simp add: uniq_fold_keys insert_commute)
  show "map_sum id key_sets (buckets_fold B [] [a, b])
       = map_sum id key_sets (buckets_fold B [] [b, a])"
    by (rule buckets_pair_comm)
qed



end
